theory Spec2Isabelle
  imports Complex_Main "HOL-Library.Multiset" "HOL-Library.Word"
begin

section \<open>JavaScript values, rows and errors\<close>

text \<open>
  The point layer of kepler.gl (\<^verbatim>\<open>src/layers/point-layer/point-layer.js\<close>) reads the
  cells of tabular rows.  A cell is a JavaScript value; what the layer asks of it is whether
  \<^verbatim>\<open>Number.isFinite\<close> holds and what \<^verbatim>\<open>String\<close> makes of it.  A finite number
  is a real; the three non-finite numbers are constructors of their own.

  A JavaScript string is a sequence of UTF-16 code units: a character of the Basic
  Multilingual Plane is one unit, any other character is a pair of surrogates (a unit in
  \<open>D800..DBFF\<close> followed by one in \<open>DC00..DFFF\<close>), and a surrogate may also stand alone.
\<close>

type_synonym code_unit = "16 word"

type_synonym js_string = "code_unit list"

text \<open>The string of a literal of the source, all of whose characters are ASCII.\<close>

definition utf16 :: "string \<Rightarrow> js_string" where
  "utf16 s = map (\<lambda>c. of_nat (of_char c)) s"

definition is_high_surrogate :: "code_unit \<Rightarrow> bool" where
  "is_high_surrogate u = (0xD800 \<le> u \<and> u \<le> 0xDBFF)"

definition is_low_surrogate :: "code_unit \<Rightarrow> bool" where
  "is_low_surrogate u = (0xDC00 \<le> u \<and> u \<le> 0xDFFF)"

datatype jsval =
    JNumber real
  | JNaN
  | JInfinity
  | JNegInfinity
  | JString js_string
  | JBoolean bool
  | JNull
  | JUndefined

text \<open>A failed property read on \<^verbatim>\<open>undefined\<close> or \<^verbatim>\<open>null\<close> throws a TypeError.\<close>

datatype error = TypeError

type_synonym row = "jsval list"

text \<open>
  \<^verbatim>\<open>Number.isFinite(v)\<close>: true only for a value of type number that is neither NaN nor
  an infinity; no coercion.
\<close>

fun Number_isFinite :: "jsval \<Rightarrow> bool" where
  "Number_isFinite (JNumber _) = True"
| "Number_isFinite _ = False"

text \<open>
  \<^verbatim>\<open>xs[i]\<close> on an array: the element, or \<^verbatim>\<open>undefined\<close> (here \<open>None\<close>) when the
  index is negative or past the end.
\<close>

definition js_index :: "'a list \<Rightarrow> int \<Rightarrow> 'a option" where
  "js_index xs i = (if 0 \<le> i \<and> i < int (length xs) then Some (xs ! nat i) else None)"

text \<open>A cell read \<^verbatim>\<open>d.data[i]\<close> on a row that exists.\<close>

definition cell :: "row \<Rightarrow> int \<Rightarrow> jsval" where
  "cell r i = (case js_index r i of Some v \<Rightarrow> v | None \<Rightarrow> JUndefined)"

text \<open>
  The objects \<^verbatim>\<open>{data: allData[index]}\<close> the layer hands to its accessors and keeps
  in its output.  \<^verbatim>\<open>allData[index]\<close> is \<^verbatim>\<open>undefined\<close> for an index outside the
  dataset.  The field is \<^verbatim>\<open>data\<close> in the source; the layer data's own \<^verbatim>\<open>data\<close>
  field keeps that name below.
\<close>

record datum =
  d_data :: "row option"

subsection \<open>Decimal text of an integer\<close>

text \<open>
  The template literal of \<^verbatim>\<open>pointPosResolver\<close> converts each field index to a string.
  For an integer (of magnitude below \<open>10^21\<close>, which every column index is) that is its
  decimal numeral, with a leading minus sign when negative.
\<close>

definition digit_char :: "nat \<Rightarrow> char" where
  "digit_char d = char_of (48 + d)"

fun nat_toString :: "nat \<Rightarrow> string" where
  "nat_toString n =
     (if n < 10 then [digit_char n] else nat_toString (n div 10) @ [digit_char (n mod 10)])"

declare nat_toString.simps [simp del]

definition int_toString :: "int \<Rightarrow> string" where
  "int_toString i = (if i < 0 then CHR ''-'' # nat_toString (nat (- i)) else nat_toString (nat i))"

section \<open>Column bindings and the position accessor\<close>

text \<open>
  A column binding as \<^verbatim>\<open>findDefaultLayerProps\<close> builds it:
  \<^verbatim>\<open>{value: null, fieldIdx: -1, optional: true}\<close>.  The \<^verbatim>\<open>value\<close> field is the
  column's name (\<open>col_name\<close> here).  The \<^verbatim>\<open>altitude\<close> entry of the columns may be
  missing altogether, which both \<^verbatim>\<open>pointPosAccessor\<close> and \<^verbatim>\<open>pointPosResolver\<close>
  test for.
\<close>

record column =
  col_name :: "string option"
  fieldIdx :: int
  optional :: bool

record columns =
  lat :: column
  lng :: column
  altitude :: "column option"

text \<open>
  A function object: closures are compared with \<^verbatim>\<open>===\<close> and \<^verbatim>\<open>!==\<close>, that is by
  identity, so a closure is the reference it was allocated at together with what it captured.
\<close>

record 'e closure =
  fn_ref :: nat
  captured :: 'e

text \<open>Identity comparison \<^verbatim>\<open>f === g\<close> of two function objects.\<close>

definition same_fn :: "'e closure \<Rightarrow> 'e closure \<Rightarrow> bool" where
  "same_fn f g = (fn_ref f = fn_ref g)"

text \<open>
  The body of the closure \<^verbatim>\<open>pointPosAccessor({lat, lng, altitude})\<close> returns, on a row
  that exists: \<^verbatim>\<open>[d.data[lng.fieldIdx], d.data[lat.fieldIdx], altitude && altitude.fieldIdx > -1 ? d.data[altitude.fieldIdx] : 0]\<close>.
\<close>

definition position_of :: "columns \<Rightarrow> row \<Rightarrow> jsval list" where
  "position_of c r =
     [cell r (fieldIdx (lng c)),
      cell r (fieldIdx (lat c)),
      (case altitude c of
         Some a \<Rightarrow> if fieldIdx a > -1 then cell r (fieldIdx a) else JNumber 0
       | None \<Rightarrow> JNumber 0)]"

text \<open>
  Calling the accessor on \<^verbatim>\<open>d\<close>.  When \<^verbatim>\<open>d.data\<close> is \<^verbatim>\<open>undefined\<close> the first
  read \<^verbatim>\<open>d.data[lng.fieldIdx]\<close> throws.
\<close>

definition call_position :: "columns closure \<Rightarrow> datum \<Rightarrow> error + jsval list" where
  "call_position f d =
     (case d_data d of
        None \<Rightarrow> Inl TypeError
      | Some r \<Rightarrow> Inr (position_of (captured f) r))"

text \<open>\<^verbatim>\<open>pointPosAccessor\<close>: a new closure over the columns, allocated at \<open>ref\<close>.\<close>

definition pointPosAccessor :: "nat \<Rightarrow> columns \<Rightarrow> columns closure" where
  "pointPosAccessor ref c = \<lparr>fn_ref = ref, captured = c\<rparr>"

text \<open>
  \<^verbatim>\<open>pointPosResolver\<close>:
  \<^verbatim>\<open>`${lat.fieldIdx}-${lng.fieldIdx}-${altitude ? altitude.fieldIdx : 'z'}`\<close>.
\<close>

definition pointPosResolver :: "columns \<Rightarrow> string" where
  "pointPosResolver c =
     int_toString (fieldIdx (lat c)) @ ''-'' @ int_toString (fieldIdx (lng c)) @ ''-'' @
     (case altitude c of Some a \<Rightarrow> int_toString (fieldIdx a) | None \<Rightarrow> ''z'')"

section \<open>The label accessor\<close>

record field =
  field_name :: string
  tableFieldIndex :: int

type_synonym rgb = "int list"

record textLabel =
  label_field :: "field option"
  label_color :: rgb
  label_size :: real
  label_offset :: "real list"
  label_anchor :: string

text \<open>
  \<^verbatim>\<open>String(v)\<close>.  The text of a finite number is JavaScript's shortest round-trip
  numeral; the layer does not define it, so it is the parameter \<open>numText\<close>.
\<close>

fun js_String :: "(real \<Rightarrow> js_string) \<Rightarrow> jsval \<Rightarrow> js_string" where
  "js_String numText (JNumber x) = numText x"
| "js_String numText JNaN = utf16 ''NaN''"
| "js_String numText JInfinity = utf16 ''Infinity''"
| "js_String numText JNegInfinity = utf16 ''-Infinity''"
| "js_String numText (JString s) = s"
| "js_String numText (JBoolean b) = (if b then utf16 ''true'' else utf16 ''false'')"
| "js_String numText JNull = utf16 ''null''"
| "js_String numText JUndefined = utf16 ''undefined''"

text \<open>\<^verbatim>\<open>pointLabelAccessor\<close>: a new closure over the text label configuration.\<close>

definition pointLabelAccessor :: "nat \<Rightarrow> textLabel \<Rightarrow> textLabel closure" where
  "pointLabelAccessor ref t = \<lparr>fn_ref = ref, captured = t\<rparr>"

text \<open>
  Calling it: \<^verbatim>\<open>String(d.data[textLabel.field.tableFieldIndex - 1])\<close>.  Reading
  \<^verbatim>\<open>tableFieldIndex\<close> of a missing field throws, and so does indexing a missing row.
\<close>

definition call_label ::
  "(real \<Rightarrow> js_string) \<Rightarrow> textLabel closure \<Rightarrow> datum \<Rightarrow> error + js_string" where
  "call_label numText f d =
     (case label_field (captured f) of
        None \<Rightarrow> Inl TypeError
      | Some fld \<Rightarrow>
          (case d_data d of
             None \<Rightarrow> Inl TypeError
           | Some r \<Rightarrow> Inr (js_String numText (cell r (tableFieldIndex fld - 1)))))"

text \<open>
  \<^verbatim>\<open>pointLabelResolver\<close>: \<^verbatim>\<open>textLabel.field && textLabel.field.tableFieldIndex\<close>: the
  missing field itself when there is none, the field's index otherwise.
\<close>

definition pointLabelResolver :: "textLabel \<Rightarrow> int option" where
  "pointLabelResolver t = map_option tableFieldIndex (label_field t)"

section \<open>lodash.memoize\<close>

text \<open>
  \<^verbatim>\<open>memoize(func, resolver)\<close> keeps a cache from keys to results that is never evicted.
  A call computes \<^verbatim>\<open>resolver(arg)\<close>; on a hit it returns the cached result, on a miss it
  calls \<^verbatim>\<open>func(arg)\<close>, stores the result under the key and returns it.  Both functions
  memoized here allocate one closure per call, at the next free reference \<open>next\<close>; the
  call returns the result, the cache and the next free reference.
\<close>

definition memoized ::
  "(nat \<Rightarrow> 'a \<Rightarrow> 'r) \<Rightarrow> ('a \<Rightarrow> 'k) \<Rightarrow> ('k \<times> 'r) list \<Rightarrow> nat \<Rightarrow> 'a \<Rightarrow> 'r \<times> ('k \<times> 'r) list \<times> nat" where
  "memoized func resolver cache next arg =
     (case map_of cache (resolver arg) of
        Some r \<Rightarrow> (r, cache, next)
      | None \<Rightarrow>
          (let r = func next arg
           in (r, cache @ [(resolver arg, r)], Suc next)))"

section \<open>Configuration, host layer and layer state\<close>

record colorRange =
  colors :: "string list"

record visConfig =
  radiusRange :: "real list"
  fixedRadius :: bool
  colorRange :: colorRange
  strokeColorRange :: colorRange
  strokeColor :: "rgb option"
  outline :: bool
  filled :: bool
  thickness :: real
  opacity :: real

text \<open>
  \<^verbatim>\<open>this.config\<close>.  A channel's field is a field object or \<^verbatim>\<open>null\<close>; the stroke
  colour override \<^verbatim>\<open>visConfig.strokeColor\<close> is a colour or \<^verbatim>\<open>null\<close>.
\<close>

record config =
  columns :: columns
  colorScale :: string
  colorDomain :: "jsval list"
  colorField :: "field option"
  strokeColorField :: "field option"
  strokeColorScale :: string
  strokeColorDomain :: "jsval list"
  color :: rgb
  sizeField :: "field option"
  sizeScale :: string
  sizeDomain :: "jsval list"
  textLabel :: textLabel
  visConfig :: visConfig
  highlightColor :: rgb

text \<open>
  deck.gl's picking info for the hovered object, \<^verbatim>\<open>objectHovered\<close>; it is
  \<^verbatim>\<open>null\<close> when nothing is hovered.
\<close>

record objectInfo =
  object :: datum
  picked :: bool
  picked_layer :: "string option"

text \<open>What a channel encodes a row to: a radius or a colour.\<close>

datatype visual = VNumber real | VColor rgb

datatype scale_range = ColorList "rgb list" | NumberRange "real list"

text \<open>
  The methods \<^verbatim>\<open>PointLayer\<close> inherits from the base layer class
  (\<^verbatim>\<open>../base-layer\<close>) and the utilities it imports are outside the file; they are the
  fields of a record the model takes as a parameter.  \<open>'s\<close> is the type of a scale
  function (always truthy), \<open>'b\<close> of bounds, \<open>'m\<close> of the map state.
\<close>

record ('s, 'b, 'm) host =
  getVisChannelScale :: "string \<Rightarrow> jsval list \<Rightarrow> scale_range \<Rightarrow> bool \<Rightarrow> 's"
  getEncodedChannelValue :: "'s \<Rightarrow> row option \<Rightarrow> field \<Rightarrow> visual"
  getPointsBounds :: "row list \<Rightarrow> (row \<Rightarrow> error + jsval list) \<Rightarrow> 'b"
  hexToRgb :: "string \<Rightarrow> rgb"
  numberToString :: "real \<Rightarrow> js_string"
  getRadiusScaleByZoom :: "'m \<Rightarrow> real"
  isLayerHovered :: "string \<Rightarrow> objectInfo option \<Rightarrow> bool"

text \<open>
  The layer instance: its configuration, the caches of its two memoized functions
  (\<^verbatim>\<open>this.getPosition\<close>, \<^verbatim>\<open>this.getText\<close>), the bounds of its metadata
  (\<^verbatim>\<open>this.meta.bounds\<close>, missing until first computed) and the next free object
  reference.
\<close>

record 'b layer =
  layer_id :: string
  config :: config
  getPosition_cache :: "(string \<times> columns closure) list"
  getText_cache :: "(int option \<times> textLabel closure) list"
  meta_bounds :: "'b option"
  heap_next :: nat

text \<open>The constructor: both caches start empty.\<close>

definition PointLayer :: "string \<Rightarrow> config \<Rightarrow> nat \<Rightarrow> 'b layer" where
  "PointLayer ident cfg ref =
     \<lparr>layer_id = ident, config = cfg, getPosition_cache = [], getText_cache = [],
      meta_bounds = None, heap_next = ref\<rparr>"

text \<open>\<^verbatim>\<open>this.getPosition(columns)\<close>, the memoized \<^verbatim>\<open>pointPosAccessor\<close>.\<close>

definition getPosition_memo :: "'b layer \<Rightarrow> columns \<Rightarrow> columns closure \<times> 'b layer" where
  "getPosition_memo this c =
     (case memoized pointPosAccessor pointPosResolver (getPosition_cache this) (heap_next this) c of
        (f, cache, next) \<Rightarrow> (f, this\<lparr>getPosition_cache := cache, heap_next := next\<rparr>))"

text \<open>\<^verbatim>\<open>this.getText(textLabel)\<close>, the memoized \<^verbatim>\<open>pointLabelAccessor\<close>.\<close>

definition getText_memo :: "'b layer \<Rightarrow> textLabel \<Rightarrow> textLabel closure \<times> 'b layer" where
  "getText_memo this t =
     (case memoized pointLabelAccessor pointLabelResolver (getText_cache this) (heap_next this) t of
        (f, cache, next) \<Rightarrow> (f, this\<lparr>getText_cache := cache, heap_next := next\<rparr>))"

text \<open>\<^verbatim>\<open>getPositionAccessor() { return this.getPosition(this.config.columns); }\<close>\<close>

definition getPositionAccessor :: "'b layer \<Rightarrow> columns closure \<times> 'b layer" where
  "getPositionAccessor this = getPosition_memo this (columns (config this))"

text \<open>
  \<^verbatim>\<open>updateLayerMeta(allData)\<close>: asks for the position accessor again, computes the bounds
  of all of \<^verbatim>\<open>allData\<close> through \<^verbatim>\<open>d => getPosition({data: d})\<close> and stores them in the
  metadata.
\<close>

definition updateLayerMeta :: "('s, 'b, 'm) host \<Rightarrow> 'b layer \<Rightarrow> row list \<Rightarrow> 'b layer" where
  "updateLayerMeta host this allData =
     (case getPositionAccessor this of
        (posAccessor, this1) \<Rightarrow>
          this1\<lparr>meta_bounds :=
            Some (getPointsBounds host allData (\<lambda>d. call_position posAccessor \<lparr>d_data = Some d\<rparr>))\<rparr>)"

section \<open>formatLayerData\<close>

text \<open>
  An array object: what \<^verbatim>\<open>formatLayerData\<close> returns as \<^verbatim>\<open>data\<close> and
  \<^verbatim>\<open>labelCharacterSet\<close> is either the array of the previous pass itself or a newly
  allocated one, so an array carries the reference it was allocated at.
\<close>

record 'a js_array =
  arr_ref :: nat
  elems :: "'a list"

text \<open>
  A channel accessor of the returned descriptor: either a constant (deck.gl takes a plain
  value where an accessor is expected) or the closure
  \<^verbatim>\<open>d => this.getEncodedChannelValue(scale, d.data, field)\<close>, kept as the scale and field
  it captured.
\<close>

datatype 's accessor = Constant visual | Encoded 's field

definition call_accessor :: "('s, 'b, 'm) host \<Rightarrow> 's accessor \<Rightarrow> datum \<Rightarrow> visual" where
  "call_accessor host a d =
     (case a of
        Constant v \<Rightarrow> v
      | Encoded scale fld \<Rightarrow> getEncodedChannelValue host scale (d_data d) fld)"

text \<open>The object \<^verbatim>\<open>formatLayerData\<close> returns.\<close>

record 's layer_data =
  data :: "datum js_array"
  labelCharacterSet :: "js_string js_array"
  getPosition :: "columns closure"
  getFillColor :: "'s accessor"
  getLineColor :: "'s accessor"
  getRadius :: "'s accessor"
  getText :: "textLabel closure"

text \<open>
  \<^verbatim>\<open>oldLayerData\<close> as the function reads it: it may be missing, and the four properties
  read from it may each be missing (the caller's initial layer data is \<^verbatim>\<open>{}\<close>).
\<close>

record old_layer_data =
  old_data :: "datum js_array option"
  old_labelCharacterSet :: "js_string js_array option"
  old_getPosition :: "columns closure option"
  old_getText :: "textLabel closure option"

text \<open>The previous pass's output handed back as \<^verbatim>\<open>oldLayerData\<close>.\<close>

definition previous :: "'s layer_data \<Rightarrow> old_layer_data option" where
  "previous out =
     Some \<lparr>old_data = Some (data out), old_labelCharacterSet = Some (labelCharacterSet out),
           old_getPosition = Some (getPosition out), old_getText = Some (getText out)\<rparr>"

text \<open>\<^verbatim>\<open>opt = {}\<close> by default: a missing \<^verbatim>\<open>sameData\<close> is falsy.\<close>

record opt =
  sameData :: bool

text \<open>
  Line 226: \<^verbatim>\<open>!oldLayerData || oldLayerData.getPosition !== getPosition\<close>.
\<close>

definition positionChanged :: "old_layer_data option \<Rightarrow> columns closure \<Rightarrow> bool" where
  "positionChanged oldLayerData f =
     (case oldLayerData of
        None \<Rightarrow> True
      | Some old \<Rightarrow> (case old_getPosition old of None \<Rightarrow> True | Some g \<Rightarrow> \<not> same_fn g f))"

text \<open>
  Lines 231 to 236:
  \<^verbatim>\<open>oldLayerData && oldLayerData.data && opt.sameData && oldLayerData.getPosition === getPosition\<close>;
  an array is truthy whatever it holds.
\<close>

definition reuseData :: "old_layer_data option \<Rightarrow> opt \<Rightarrow> columns closure \<Rightarrow> bool" where
  "reuseData oldLayerData op f =
     (case oldLayerData of
        None \<Rightarrow> False
      | Some old \<Rightarrow>
          old_data old \<noteq> None \<and> sameData op \<and>
          (case old_getPosition old of None \<Rightarrow> False | Some g \<Rightarrow> same_fn g f))"

text \<open>
  Lines 259 to 264:
  \<^verbatim>\<open>oldLayerData && oldLayerData.labelCharacterSet && opt.sameData && oldLayerData.getText === getText\<close>.
\<close>

definition reuseLabels :: "old_layer_data option \<Rightarrow> opt \<Rightarrow> textLabel closure \<Rightarrow> bool" where
  "reuseLabels oldLayerData op f =
     (case oldLayerData of
        None \<Rightarrow> False
      | Some old \<Rightarrow>
          old_labelCharacterSet old \<noteq> None \<and> sameData op \<and>
          (case old_getText old of None \<Rightarrow> False | Some g \<Rightarrow> same_fn g f))"

text \<open>
  The callback of \<^verbatim>\<open>filteredIndex.reduce\<close> (lines 239 to 253), run over the indices in
  order: the position of \<^verbatim>\<open>{data: allData[index]}\<close> is computed, the accumulator is
  returned as it is unless \<^verbatim>\<open>pos.every(Number.isFinite)\<close>, and otherwise
  \<^verbatim>\<open>{data: allData[index]}\<close> is pushed.  A throw of the accessor ends the loop.
\<close>

fun reduce_rows :: "columns closure \<Rightarrow> row list \<Rightarrow> int list \<Rightarrow> datum list \<Rightarrow> error + datum list" where
  "reduce_rows f allData [] accu = Inr accu"
| "reduce_rows f allData (index # rest) accu =
     (case call_position f \<lparr>d_data = js_index allData index\<rparr> of
        Inl e \<Rightarrow> Inl e
      | Inr pos \<Rightarrow>
          if \<not> list_all Number_isFinite pos then reduce_rows f allData rest accu
          else reduce_rows f allData rest (accu @ [\<lparr>d_data = js_index allData index\<rparr>]))"

text \<open>
  \<^verbatim>\<open>data.map(getText)\<close>: the label of every element in order; the first throw ends it.
\<close>

fun map_labels ::
  "(real \<Rightarrow> js_string) \<Rightarrow> textLabel closure \<Rightarrow> datum list \<Rightarrow> error + js_string list" where
  "map_labels numText f [] = Inr []"
| "map_labels numText f (d # ds) =
     (case call_label numText f d of
        Inl e \<Rightarrow> Inl e
      | Inr s \<Rightarrow> (case map_labels numText f ds of Inl e \<Rightarrow> Inl e | Inr ss \<Rightarrow> Inr (s # ss)))"

text \<open>
  \<^verbatim>\<open>lodash.uniq\<close> (4.5.0) on a string.  \<^verbatim>\<open>uniq(array)\<close> is
  \<^verbatim>\<open>(array && array.length) ? baseUniq(array) : []\<close>.  Below 200 elements
  \<^verbatim>\<open>baseUniq\<close> reads \<^verbatim>\<open>array[index]\<close> for each index, which on a string is the one
  code unit at that index, and pushes a value unless it is already in the result.  From 200
  elements on it returns \<^verbatim>\<open>setToArray(new Set(array))\<close>, and a \<^verbatim>\<open>Set\<close> built from a
  string takes the string's iterator, which goes by code point: a high surrogate followed by
  a low one is one element of two units, any other unit is an element of its own.  Either
  way the values are kept in order of first occurrence, each once.
\<close>

definition first_occurrences :: "'a list \<Rightarrow> 'a list" where
  "first_occurrences xs = foldl (\<lambda>seen x. if x \<in> set seen then seen else seen @ [x]) [] xs"

fun code_points :: "js_string \<Rightarrow> js_string list" where
  "code_points (u # v # rest) =
     (if is_high_surrogate u \<and> is_low_surrogate v then [u, v] # code_points rest
      else [u] # code_points (v # rest))"
| "code_points [u] = [[u]]"
| "code_points [] = []"

text \<open>A string of the Basic Multilingual Plane: no unit of it is a surrogate.\<close>

definition bmp :: "js_string \<Rightarrow> bool" where
  "bmp s = list_all (\<lambda>u. \<not> is_high_surrogate u \<and> \<not> is_low_surrogate u) s"

definition uniq :: "js_string \<Rightarrow> js_string list" where
  "uniq s =
     (if s = [] then []
      else if 200 \<le> length s then first_occurrences (code_points s)
      else first_occurrences (map (\<lambda>u. [u]) s))"

text \<open>
  Lines 267 and 268:
  \<^verbatim>\<open>textLabels = textLabel.field ? data.map(getText) : []\<close> and
  \<^verbatim>\<open>uniq(textLabels.join(''))\<close>.
\<close>

definition distinctCharacters ::
  "(real \<Rightarrow> js_string) \<Rightarrow> textLabel \<Rightarrow> textLabel closure \<Rightarrow> datum list \<Rightarrow>
   error + js_string list" where
  "distinctCharacters numText label f ds =
     (case (case label_field label of Some _ \<Rightarrow> map_labels numText f ds | None \<Rightarrow> Inr []) of
        Inl e \<Rightarrow> Inl e
      | Inr textLabels \<Rightarrow> Inr (uniq (concat textLabels)))"

text \<open>
  Lines 230 to 254, on the layer as line 228 left it: the previous pass's array itself, or
  a new array filled by the \<^verbatim>\<open>reduce\<close>.  Under \<open>reuseData\<close> the previous output and
  its array are there, so the two error branches of the first case are never taken.
\<close>

definition layerRows ::
  "'b layer \<Rightarrow> columns closure \<Rightarrow> row list \<Rightarrow> int list \<Rightarrow> old_layer_data option \<Rightarrow> opt \<Rightarrow>
   (error + datum js_array) \<times> 'b layer" where
  "layerRows this posAccessor allData filteredIndex oldLayerData op =
     (if reuseData oldLayerData op posAccessor
      then (case oldLayerData of
              Some old \<Rightarrow> (case old_data old of Some d \<Rightarrow> (Inr d, this) | None \<Rightarrow> (Inl TypeError, this))
            | None \<Rightarrow> (Inl TypeError, this))
      else (case reduce_rows posAccessor allData filteredIndex [] of
              Inl e \<Rightarrow> (Inl e, this\<lparr>heap_next := Suc (heap_next this)\<rparr>)
            | Inr accu \<Rightarrow>
                (Inr \<lparr>arr_ref = heap_next this, elems = accu\<rparr>,
                 this\<lparr>heap_next := Suc (heap_next this)\<rparr>)))"

text \<open>
  Lines 258 to 269: the previous pass's character set itself, or a new array of the distinct
  characters of the labels of \<^verbatim>\<open>data\<close>; \<open>label\<close> is the \<^verbatim>\<open>textLabel\<close> read from the
  configuration at the start of the call.  Under \<open>reuseLabels\<close> the previous output and its
  character set are there, so the two error branches of the first case are never taken.
\<close>

definition layerCharacterSet ::
  "('s, 'b, 'm) host \<Rightarrow> 'b layer \<Rightarrow> textLabel \<Rightarrow> textLabel closure \<Rightarrow> datum list \<Rightarrow>
   old_layer_data option \<Rightarrow> opt \<Rightarrow> (error + js_string js_array) \<times> 'b layer" where
  "layerCharacterSet host this label labelAccessor dat oldLayerData op =
     (if reuseLabels oldLayerData op labelAccessor
      then (case oldLayerData of
              Some old \<Rightarrow>
                (case old_labelCharacterSet old of
                   Some c \<Rightarrow> (Inr c, this) | None \<Rightarrow> (Inl TypeError, this))
            | None \<Rightarrow> (Inl TypeError, this))
      else (case distinctCharacters (numberToString host) label labelAccessor dat of
              Inl e \<Rightarrow> (Inl e, this)
            | Inr cs \<Rightarrow>
                (Inr \<lparr>arr_ref = heap_next this, elems = cs\<rparr>,
                 this\<lparr>heap_next := Suc (heap_next this)\<rparr>)))"

text \<open>
  Lines 202 to 222: \<^verbatim>\<open>cScale\<close>, \<^verbatim>\<open>scScale\<close> and \<^verbatim>\<open>rScale\<close>, each
  \<^verbatim>\<open>field && this.getVisChannelScale(...)\<close>: missing when the channel's field is, a
  scale otherwise.  The two colour scales are called with three arguments, so their
  \<^verbatim>\<open>fixed\<close> parameter is falsy.
\<close>

definition cScale :: "('s, 'b, 'm) host \<Rightarrow> config \<Rightarrow> 's option" where
  "cScale host cfg =
     map_option
       (\<lambda>_. getVisChannelScale host (colorScale cfg) (colorDomain cfg)
               (ColorList (map (hexToRgb host) (colors (colorRange (visConfig cfg))))) False)
       (colorField cfg)"

definition scScale :: "('s, 'b, 'm) host \<Rightarrow> config \<Rightarrow> 's option" where
  "scScale host cfg =
     map_option
       (\<lambda>_. getVisChannelScale host (strokeColorScale cfg) (strokeColorDomain cfg)
               (ColorList (map (hexToRgb host) (colors (strokeColorRange (visConfig cfg))))) False)
       (strokeColorField cfg)"

definition rScale :: "('s, 'b, 'm) host \<Rightarrow> config \<Rightarrow> 's option" where
  "rScale host cfg =
     map_option
       (\<lambda>_. getVisChannelScale host (sizeScale cfg) (sizeDomain cfg)
               (NumberRange (radiusRange (visConfig cfg))) (fixedRadius (visConfig cfg)))
       (sizeField cfg)"

text \<open>
  Lines 271 to 281.  A scale exists only with its field, so the closure's field is there
  whenever the scale is; the remaining case takes the constant as the source's
  \<^verbatim>\<open>scale ? closure : constant\<close> does for a falsy scale.
\<close>

definition radiusAccessor :: "('s, 'b, 'm) host \<Rightarrow> config \<Rightarrow> 's accessor" where
  "radiusAccessor host cfg =
     (case (rScale host cfg, sizeField cfg) of
        (Some scale, Some fld) \<Rightarrow> Encoded scale fld
      | _ \<Rightarrow> Constant (VNumber 1))"

definition fillColorAccessor :: "('s, 'b, 'm) host \<Rightarrow> config \<Rightarrow> 's accessor" where
  "fillColorAccessor host cfg =
     (case (cScale host cfg, colorField cfg) of
        (Some scale, Some fld) \<Rightarrow> Encoded scale fld
      | _ \<Rightarrow> Constant (VColor (color cfg)))"

definition lineColorAccessor :: "('s, 'b, 'm) host \<Rightarrow> config \<Rightarrow> 's accessor" where
  "lineColorAccessor host cfg =
     (case (scScale host cfg, strokeColorField cfg) of
        (Some scale, Some fld) \<Rightarrow> Encoded scale fld
      | _ \<Rightarrow>
          Constant (VColor (case strokeColor (visConfig cfg) of
                              Some stroke \<Rightarrow> stroke
                            | None \<Rightarrow> color cfg)))"

text \<open>
  \<^verbatim>\<open>formatLayerData(_, allData, filteredIndex, oldLayerData, opt = {})\<close>.  It returns the
  layer data, or the error thrown, together with the layer instance as the call left it:
  the position accessor is fetched (line 224), the metadata is updated when
  \<open>positionChanged\<close> (lines 226 to 228), the rows are reused or rebuilt, the label accessor
  is fetched (line 257), the character set is reused or rebuilt, and the descriptor is
  assembled.
\<close>

definition formatLayerData ::
  "('s, 'b, 'm) host \<Rightarrow> 'b layer \<Rightarrow> row list \<Rightarrow> int list \<Rightarrow> old_layer_data option \<Rightarrow> opt \<Rightarrow>
   (error + 's layer_data) \<times> 'b layer" where
  "formatLayerData host this allData filteredIndex oldLayerData op =
     (case getPositionAccessor this of
        (posAccessor, this1) \<Rightarrow>
          (case layerRows
                  (if positionChanged oldLayerData posAccessor
                   then updateLayerMeta host this1 allData else this1)
                  posAccessor allData filteredIndex oldLayerData op of
             (Inl e, this3) \<Rightarrow> (Inl e, this3)
           | (Inr dat, this3) \<Rightarrow>
               (case getText_memo this3 (textLabel (config this)) of
                  (labelAccessor, this4) \<Rightarrow>
                    (case layerCharacterSet host this4 (textLabel (config this)) labelAccessor
                            (elems dat) oldLayerData op of
                       (Inl e, this5) \<Rightarrow> (Inl e, this5)
                     | (Inr labelChars, this5) \<Rightarrow>
                         (Inr \<lparr>data = dat,
                               labelCharacterSet = labelChars,
                               getPosition = posAccessor,
                               getFillColor = fillColorAccessor host (config this),
                               getLineColor = lineColorAccessor host (config this),
                               getRadius = radiusAccessor host (config this),
                               getText = labelAccessor\<rparr>,
                          this5)))))"

section \<open>renderLayer\<close>

record brush =
  brush_enabled :: bool
  brush_size :: real

text \<open>
  \<^verbatim>\<open>layerProps\<close> (lines 310 to 318); \<^verbatim>\<open>radiusMaxPixels\<close> is set to 500 only when
  the radius is not fixed.
\<close>

record layerProps =
  stroked :: bool
  props_filled :: bool
  radiusMinPixels :: real
  lineWidthMinPixels :: real
  radiusScale :: real
  radiusMaxPixels :: "real option"

text \<open>\<^verbatim>\<open>interaction\<close> (lines 320 to 325).\<close>

record interaction =
  autoHighlight :: bool
  enableBrushing :: bool
  brushRadius :: real
  interaction_highlightColor :: rgb

text \<open>
  The properties of the three sub-layers.  The first two are given to
  \<^verbatim>\<open>new ScatterplotBrushingLayer\<close>, the third to \<^verbatim>\<open>new TextLayer\<close>.  \<open>'li\<close> is the
  caller's \<^verbatim>\<open>layerInteraction\<close> object, spread into the properties as it is.  The
  \<^verbatim>\<open>updateTriggers\<close> objects only repeat configuration values and are left out.
\<close>

record ('s, 'li) point_props =
  point_layerProps :: layerProps
  point_layerInteraction :: 'li
  point_layerData :: "'s layer_data"
  point_interaction :: interaction
  point_idx :: int
  point_id :: string
  point_opacity :: real
  point_pickable :: bool
  point_depthTest :: bool

record 's hover_props =
  hover_layerProps :: layerProps
  hover_id :: string
  hover_data :: "datum list"
  hover_getLineColor :: rgb
  hover_getFillColor :: rgb
  hover_getRadius :: "'s accessor"
  hover_getPosition :: "columns closure"
  hover_pickable :: bool

record 'li label_props =
  text_layerInteraction :: 'li
  text_id :: string
  text_data :: "datum js_array"
  text_getPosition :: "columns closure"
  text_getPixelOffset :: "real list"
  text_getSize :: real
  text_getTextAnchor :: string
  text_getText :: "textLabel closure"
  text_getColor :: rgb
  text_depthTest :: bool
  text_characterSet :: "js_string js_array"

datatype ('s, 'li) sublayer =
    PointSublayer "('s, 'li) point_props"
  | HoverSublayer "'s hover_props"
  | LabelSublayer "'li label_props"

text \<open>
  \<^verbatim>\<open>renderLayer({data, idx, layerInteraction, objectHovered, mapState, interactionConfig})\<close>.
  The array literal is evaluated left to right.  The first element reads
  \<^verbatim>\<open>this.config.columns.altitude.fieldIdx\<close> with no test that the altitude entry is
  there, which throws when it is missing.  The second spread is a one-element array when
  \<^verbatim>\<open>this.isLayerHovered(objectHovered)\<close>, and reads \<^verbatim>\<open>objectHovered.object\<close>; the
  third is a one-element array when \<^verbatim>\<open>this.config.textLabel.field\<close> is there.
\<close>

definition renderLayer ::
  "('s, 'b, 'm) host \<Rightarrow> 'b layer \<Rightarrow> 's layer_data \<Rightarrow> int \<Rightarrow> 'li \<Rightarrow> objectInfo option \<Rightarrow> 'm \<Rightarrow> brush \<Rightarrow>
   error + ('s, 'li) sublayer list" where
  "renderLayer host this dat idx layerInteraction objectHovered mapState brushConfig =
     (let cfg = config this;
          vis = visConfig cfg;
          props = \<lparr>stroked = outline vis, props_filled = filled vis, radiusMinPixels = 1,
                   lineWidthMinPixels = thickness vis,
                   radiusScale = getRadiusScaleByZoom host mapState,
                   radiusMaxPixels = (if fixedRadius vis then None else Some 500)\<rparr>;
          inter = \<lparr>autoHighlight = \<not> brush_enabled brushConfig,
                   enableBrushing = brush_enabled brushConfig,
                   brushRadius = brush_size brushConfig * 1000,
                   interaction_highlightColor = highlightColor cfg\<rparr>
      in case altitude (columns cfg) of
        None \<Rightarrow> Inl TypeError
      | Some alt \<Rightarrow>
          (case (if isLayerHovered host (layer_id this) objectHovered
                 then (case objectHovered of
                         None \<Rightarrow> Inl TypeError
                       | Some info \<Rightarrow>
                           Inr [HoverSublayer
                                  \<lparr>hover_layerProps = props,
                                   hover_id = layer_id this @ ''-hovered'',
                                   hover_data = [object info],
                                   hover_getLineColor = highlightColor cfg,
                                   hover_getFillColor = highlightColor cfg,
                                   hover_getRadius = getRadius dat,
                                   hover_getPosition = getPosition dat,
                                   hover_pickable = False\<rparr>])
                 else Inr []) of
             Inl e \<Rightarrow> Inl e
           | Inr hovered \<Rightarrow>
               Inr ([PointSublayer
                       \<lparr>point_layerProps = props,
                        point_layerInteraction = layerInteraction,
                        point_layerData = dat,
                        point_interaction = inter,
                        point_idx = idx,
                        point_id = layer_id this,
                        point_opacity = opacity vis,
                        point_pickable = True,
                        point_depthTest = (fieldIdx alt > -1)\<rparr>]
                    @ hovered
                    @ (case label_field (textLabel cfg) of
                         Some _ \<Rightarrow>
                           [LabelSublayer
                              \<lparr>text_layerInteraction = layerInteraction,
                               text_id = layer_id this @ ''-label'',
                               text_data = data dat,
                               text_getPosition = getPosition dat,
                               text_getPixelOffset = label_offset (textLabel cfg),
                               text_getSize = label_size (textLabel cfg),
                               text_getTextAnchor = label_anchor (textLabel cfg),
                               text_getText = getText dat,
                               text_getColor = label_color (textLabel cfg),
                               text_depthTest = False,
                               text_characterSet = labelCharacterSet dat\<rparr>]
                       | None \<Rightarrow> []))))"

section \<open>Well-formed layer states\<close>

text \<open>
  What holds of the two caches in every state a layer instance can reach from its
  constructor: each cached closure is stored under the key of what it captured, it was
  allocated before the next free reference, and no two cached position accessors share a
  reference.
\<close>

definition cache_ok :: "('e \<Rightarrow> 'k) \<Rightarrow> nat \<Rightarrow> ('k \<times> 'e closure) list \<Rightarrow> bool" where
  "cache_ok resolver next cache =
     (list_all (\<lambda>(k, f). resolver (captured f) = k \<and> fn_ref f < next) cache \<and>
      distinct (map (\<lambda>(k, f). fn_ref f) cache))"

definition wf_layer :: "'b layer \<Rightarrow> bool" where
  "wf_layer this =
     (cache_ok pointPosResolver (heap_next this) (getPosition_cache this) \<and>
      cache_ok pointLabelResolver (heap_next this) (getText_cache this))"

text \<open>The decimal digits, and the number a string of them denotes, for the key's injectivity.\<close>

definition is_digit :: "char \<Rightarrow> bool" where
  "is_digit c = (\<exists>d<10. c = digit_char d)"

definition digits_value :: "string \<Rightarrow> nat" where
  "digits_value cs = foldl (\<lambda>acc c. 10 * acc + (of_char c - 48)) 0 cs"

text \<open>
  The rows a rebuild keeps, in the words of the filtering law: the indices whose three
  coordinates under the columns \<open>c\<close> are all finite, in the order of the index sequence,
  each wrapped as \<^verbatim>\<open>{data: row}\<close>.
\<close>

definition finite_position :: "columns \<Rightarrow> row list \<Rightarrow> int \<Rightarrow> bool" where
  "finite_position c allData i = list_all Number_isFinite (position_of c (allData ! nat i))"

definition retained_rows :: "columns \<Rightarrow> row list \<Rightarrow> int list \<Rightarrow> datum list" where
  "retained_rows c allData filteredIndex =
     map (\<lambda>i. \<lparr>d_data = Some (allData ! nat i)\<rparr>) (filter (finite_position c allData) filteredIndex)"

definition in_range :: "row list \<Rightarrow> int list \<Rightarrow> bool" where
  "in_range allData filteredIndex = list_all (\<lambda>i. 0 \<le> i \<and> i < int (length allData)) filteredIndex"

section \<open>A concrete layer\<close>

text \<open>
  A host, a configuration, a dataset and a layer on which the theorems below are
  instantiated.  The host's bounds are the list of the positions of all rows, so that a
  recomputation shows; its hover rule is the base layer's (the picked object's layer is this
  one).  Column 0 holds the longitude, column 1 the latitude, column 2 a height and column
  3 a name; the label field has \<^verbatim>\<open>tableFieldIndex\<close> 4, which is column 3.
\<close>

definition example_host :: "(unit, (error + jsval list) list, unit) host" where
  "example_host =
     \<lparr>getVisChannelScale = (\<lambda>_ _ _ _. ()),
      getEncodedChannelValue = (\<lambda>_ _ _. VNumber 2),
      getPointsBounds = (\<lambda>rows f. map f rows),
      hexToRgb = (\<lambda>_. []),
      numberToString = (\<lambda>_. utf16 ''0''),
      getRadiusScaleByZoom = (\<lambda>_. 1),
      isLayerHovered = (\<lambda>ident info.
        case info of None \<Rightarrow> False | Some i \<Rightarrow> picked i \<and> picked_layer i = Some ident)\<rparr>"

definition example_columns :: columns where
  "example_columns =
     \<lparr>lat = \<lparr>col_name = Some ''lat'', fieldIdx = 1, optional = False\<rparr>,
      lng = \<lparr>col_name = Some ''lng'', fieldIdx = 0, optional = False\<rparr>,
      altitude = Some \<lparr>col_name = None, fieldIdx = -1, optional = True\<rparr>\<rparr>"

definition example_config :: config where
  "example_config =
     \<lparr>columns = example_columns,
      colorScale = ''quantile'', colorDomain = [JNumber 0, JNumber 1], colorField = None,
      strokeColorField = None, strokeColorScale = ''quantile'',
      strokeColorDomain = [JNumber 0, JNumber 1],
      color = [18, 147, 154],
      sizeField = None, sizeScale = ''linear'', sizeDomain = [JNumber 0, JNumber 1],
      textLabel = \<lparr>label_field = Some \<lparr>field_name = ''name'', tableFieldIndex = 4\<rparr>,
                   label_color = [255, 255, 255], label_size = 50, label_offset = [0, 0],
                   label_anchor = ''middle''\<rparr>,
      visConfig = \<lparr>radiusRange = [0, 50], fixedRadius = False,
                   colorRange = \<lparr>colors = []\<rparr>, strokeColorRange = \<lparr>colors = []\<rparr>,
                   strokeColor = None, outline = False, filled = True, thickness = 2,
                   opacity = 1\<rparr>,
      highlightColor = [252, 242, 26]\<rparr>"

definition example_rows :: "row list" where
  "example_rows =
     [[JNumber 1, JNumber 10, JNumber 5, JString (utf16 ''ab'')],
      [JNaN, JNumber 20, JNumber 7, JString (utf16 ''bc'')],
      [JNumber 2, JNumber 30, JInfinity, JString (utf16 ''ca'')]]"

definition example_layer :: "(error + jsval list) list layer" where
  "example_layer = PointLayer ''point'' example_config 0"

text \<open>
  A row whose name is the one character U+1F600, in UTF-16 the surrogate pair
  \<open>D83D DE00\<close>; a row whose name is 199 times the letter a and then a lone high surrogate;
  and a row whose name is a lone low surrogate.
\<close>

definition emoji_row :: row where
  "emoji_row = [JNumber 1, JNumber 10, JNumber 5, JString [0xD83D, 0xDE00]]"

definition long_row :: row where
  "long_row = [JNumber 1, JNumber 10, JNumber 5, JString (replicate 199 0x61 @ [0xD83D])]"

definition low_row :: row where
  "low_row = [JNumber 1, JNumber 10, JNumber 5, JString [0xDE00]]"

text \<open>
  First passes of that layer over one such row, over a hundred of them, and over the last
  two rows in either order.
\<close>

definition emoji_pass :: "(error + unit layer_data) \<times> (error + jsval list) list layer" where
  "emoji_pass =
     formatLayerData example_host example_layer [emoji_row] [0] None \<lparr>sameData = False\<rparr>"

definition emoji_pass_hundred :: "(error + unit layer_data) \<times> (error + jsval list) list layer" where
  "emoji_pass_hundred =
     formatLayerData example_host example_layer (replicate 100 emoji_row) (map int [0..<100]) None
       \<lparr>sameData = False\<rparr>"

definition boundary_pass :: "(error + unit layer_data) \<times> (error + jsval list) list layer" where
  "boundary_pass =
     formatLayerData example_host example_layer [long_row, low_row] [0, 1] None \<lparr>sameData = False\<rparr>"

definition boundary_pass_reversed :: "(error + unit layer_data) \<times> (error + jsval list) list layer" where
  "boundary_pass_reversed =
     formatLayerData example_host example_layer [long_row, low_row] [1, 0] None \<lparr>sameData = False\<rparr>"



section \<open>The memoization key determines the field indices\<close>

lemma of_char_digit_char: "d < 10 \<Longrightarrow> (of_char (digit_char d) :: nat) = 48 + d"
  by (simp add: digit_char_def)

lemma digit_char_not_minus: "d < 10 \<Longrightarrow> digit_char d \<noteq> CHR ''-''"
proof
  assume "d < 10" and "digit_char d = CHR ''-''"
  then have "(of_char (digit_char d) :: nat) = of_char CHR ''-''" by simp
  with \<open>d < 10\<close> show False by (simp add: of_char_digit_char)
qed

lemma digit_char_not_z: "d < 10 \<Longrightarrow> digit_char d \<noteq> CHR ''z''"
proof
  assume "d < 10" and "digit_char d = CHR ''z''"
  then have "(of_char (digit_char d) :: nat) = of_char CHR ''z''" by simp
  with \<open>d < 10\<close> show False by (simp add: of_char_digit_char)
qed

lemma nat_toString_digits: "list_all is_digit (nat_toString n)"
proof (induction n rule: nat_toString.induct)
  case (1 n)
  show ?case
  proof (cases "n < 10")
    case True
    then have "is_digit (digit_char n)"
      unfolding is_digit_def by (intro exI [of _ n]) simp
    with True show ?thesis by (subst nat_toString.simps) simp
  next
    case False
    then have "list_all is_digit (nat_toString (n div 10))" using 1 by simp
    moreover have "is_digit (digit_char (n mod 10))"
      unfolding is_digit_def by (rule exI [of _ "n mod 10"]) simp
    ultimately show ?thesis using False by (subst nat_toString.simps) simp
  qed
qed

lemma nat_toString_nonempty: "nat_toString n \<noteq> []"
  by (subst nat_toString.simps) simp

lemma digits_value_nat_toString: "digits_value (nat_toString n) = n"
proof (induction n rule: nat_toString.induct)
  case (1 n)
  show ?case
  proof (cases "n < 10")
    case True
    then show ?thesis
      by (subst nat_toString.simps) (simp add: digits_value_def of_char_digit_char)
  next
    case False
    then have ih: "digits_value (nat_toString (n div 10)) = n div 10" using 1 by simp
    have "digits_value (nat_toString n) =
          10 * digits_value (nat_toString (n div 10)) + (of_char (digit_char (n mod 10)) - 48)"
      using False by (subst nat_toString.simps) (simp add: digits_value_def)
    then show ?thesis using ih by (simp add: of_char_digit_char)
  qed
qed

lemma nat_toString_inj: "nat_toString m = nat_toString n \<Longrightarrow> m = n"
  by (metis digits_value_nat_toString)

lemma hd_nat_toString_digit: "is_digit (hd (nat_toString n))"
  using nat_toString_digits [of n] nat_toString_nonempty [of n]
  by (cases "nat_toString n") simp_all

lemma is_digit_not_minus: "is_digit c \<Longrightarrow> c \<noteq> CHR ''-''"
  by (auto simp: is_digit_def digit_char_not_minus)

lemma is_digit_not_z: "is_digit c \<Longrightarrow> c \<noteq> CHR ''z''"
  by (auto simp: is_digit_def digit_char_not_z)

lemma digits_split:
  "list_all is_digit xs \<Longrightarrow> list_all is_digit ys \<Longrightarrow>
   xs @ CHR ''-'' # r = ys @ CHR ''-'' # r' \<Longrightarrow> xs = ys \<and> r = r'"
proof (induction xs arbitrary: ys)
  case Nil
  then show ?case by (cases ys) (auto dest: is_digit_not_minus)
next
  case (Cons x xs)
  then show ?case by (cases ys) (auto dest: is_digit_not_minus)
qed

lemma int_toString_split:
  assumes "int_toString a @ CHR ''-'' # r = int_toString b @ CHR ''-'' # r'"
  shows "a = b \<and> r = r'"
proof -
  have neg_pos: False
    if "x < 0" "\<not> y < 0" "int_toString x @ CHR ''-'' # s = int_toString y @ CHR ''-'' # s'"
    for x y s s'
  proof -
    from that have "CHR ''-'' # nat_toString (nat (- x)) @ CHR ''-'' # s = nat_toString (nat y) @ CHR ''-'' # s'"
      by (simp add: int_toString_def)
    then have "hd (nat_toString (nat y)) = CHR ''-''"
      using nat_toString_nonempty [of "nat y"] by (cases "nat_toString (nat y)") simp_all
    then show False
      using hd_nat_toString_digit [of "nat y"] is_digit_not_minus [of "CHR ''-''"] by simp
  qed
  show ?thesis
  proof (cases "a < 0")
    case an: True
    show ?thesis
    proof (cases "b < 0")
      case True
      with an assms have "nat_toString (nat (- a)) @ CHR ''-'' # r = nat_toString (nat (- b)) @ CHR ''-'' # r'"
        by (simp add: int_toString_def)
      then have "nat_toString (nat (- a)) = nat_toString (nat (- b)) \<and> r = r'"
        using digits_split nat_toString_digits by blast
      then show ?thesis using an True by (auto dest!: nat_toString_inj)
    next
      case False
      then show ?thesis using neg_pos [OF an False assms] by simp
    qed
  next
    case ap: False
    show ?thesis
    proof (cases "b < 0")
      case True
      then show ?thesis using neg_pos [OF True ap assms [symmetric]] by simp
    next
      case False
      with ap assms have "nat_toString (nat a) @ CHR ''-'' # r = nat_toString (nat b) @ CHR ''-'' # r'"
        by (simp add: int_toString_def)
      then have "nat_toString (nat a) = nat_toString (nat b) \<and> r = r'"
        using digits_split nat_toString_digits by blast
      then show ?thesis using ap False by (auto dest!: nat_toString_inj)
    qed
  qed
qed

lemma int_toString_inj: "int_toString a = int_toString b \<Longrightarrow> a = b"
  using int_toString_split [of a "[]" b "[]"] by simp

lemma int_toString_not_z: "int_toString a \<noteq> ''z''"
proof
  assume h: "int_toString a = ''z''"
  show False
  proof (cases "a < 0")
    case True
    with h show False by (simp add: int_toString_def)
  next
    case False
    with h have "nat_toString (nat a) = ''z''" by (simp add: int_toString_def)
    then have "hd (nat_toString (nat a)) = CHR ''z''" by simp
    then show False
      using hd_nat_toString_digit [of "nat a"] is_digit_not_z [of "CHR ''z''"] by simp
  qed
qed

lemma pointPosResolver_inj:
  assumes "pointPosResolver c = pointPosResolver c'"
  shows "fieldIdx (lat c) = fieldIdx (lat c') \<and> fieldIdx (lng c) = fieldIdx (lng c') \<and>
         map_option fieldIdx (altitude c) = map_option fieldIdx (altitude c')"
proof -
  let ?t = "\<lambda>c. case altitude c of Some a \<Rightarrow> int_toString (fieldIdx a) | None \<Rightarrow> ''z''"
  from assms have
    "int_toString (fieldIdx (lat c)) @ CHR ''-'' # (int_toString (fieldIdx (lng c)) @ CHR ''-'' # ?t c) =
     int_toString (fieldIdx (lat c')) @ CHR ''-'' # (int_toString (fieldIdx (lng c')) @ CHR ''-'' # ?t c')"
    by (simp add: pointPosResolver_def)
  then have 1: "fieldIdx (lat c) = fieldIdx (lat c')"
    and "int_toString (fieldIdx (lng c)) @ CHR ''-'' # ?t c = int_toString (fieldIdx (lng c')) @ CHR ''-'' # ?t c'"
    using int_toString_split by blast+
  then have 2: "fieldIdx (lng c) = fieldIdx (lng c')" and 3: "?t c = ?t c'"
    using int_toString_split by blast+
  from 3 have "map_option fieldIdx (altitude c) = map_option fieldIdx (altitude c')"
    using int_toString_not_z
    by (auto split: option.splits dest: int_toString_inj simp: int_toString_not_z [symmetric])
  with 1 2 show ?thesis by simp
qed

lemma position_of_cong:
  "pointPosResolver c = pointPosResolver c' \<Longrightarrow> position_of c = position_of c'"
  by (drule pointPosResolver_inj) (auto simp: position_of_def fun_eq_iff split: option.splits)

section \<open>Memoization\<close>

lemma memoized_hit:
  "map_of cache (resolver arg) = Some r \<Longrightarrow> memoized func resolver cache next arg = (r, cache, next)"
  by (simp add: memoized_def)

lemma memoized_stored:
  "memoized func resolver cache next arg = (r, cache', next') \<Longrightarrow>
   map_of cache' (resolver arg) = Some r"
  by (auto simp: memoized_def Let_def map_add_def split: option.splits)

lemma memoized_keeps:
  "memoized func resolver cache next arg = (r, cache', next') \<Longrightarrow>
   map_of cache k = Some f \<Longrightarrow> map_of cache' k = Some f"
  by (auto simp: memoized_def Let_def split: option.splits)

lemma memoized_next:
  "memoized func resolver cache next arg = (r, cache', next') \<Longrightarrow> next \<le> next'"
  by (auto simp: memoized_def Let_def split: option.splits)

lemma cache_ok_mono: "cache_ok resolver n cache \<Longrightarrow> n \<le> n' \<Longrightarrow> cache_ok resolver n' cache"
  by (auto simp: cache_ok_def list_all_iff)

lemma cache_ok_lookup:
  "cache_ok resolver n cache \<Longrightarrow> map_of cache k = Some f \<Longrightarrow>
   resolver (captured f) = k \<and> fn_ref f < n"
  by (auto simp: cache_ok_def list_all_iff dest!: map_of_SomeD)

lemma cache_ok_distinct_refs:
  assumes "cache_ok resolver n cache" "map_of cache k = Some f" "map_of cache k' = Some f'" "k \<noteq> k'"
  shows "fn_ref f \<noteq> fn_ref f'"
proof
  assume eq: "fn_ref f = fn_ref f'"
  from assms have d: "distinct (map (\<lambda>(k, f). fn_ref f) cache)" by (simp add: cache_ok_def)
  from assms have m: "(k, f) \<in> set cache" "(k', f') \<in> set cache" by (auto dest: map_of_SomeD)
  have "inj_on (\<lambda>(k, f). fn_ref f) (set cache)" using d by (simp add: distinct_map)
  then have "(k, f) = (k', f')" using m eq by (auto simp: inj_on_def)
  with \<open>k \<noteq> k'\<close> show False by simp
qed

lemma memoized_cache_ok:
  assumes ok: "cache_ok resolver next cache"
    and res: "memoized func resolver cache next arg = (r, cache', next')"
    and fresh: "\<And>n a. resolver (captured (func n a)) = resolver a \<and> fn_ref (func n a) = n"
  shows "cache_ok resolver next' cache'"
proof (cases "map_of cache (resolver arg)")
  case (Some f)
  with res ok show ?thesis by (simp add: memoized_def)
next
  case None
  with res have c: "cache' = cache @ [(resolver arg, func next arg)]" and n: "next' = Suc next"
    by (auto simp: memoized_def Let_def)
  have "fn_ref (func next arg) \<notin> (\<lambda>(k, f). fn_ref f) ` set cache"
    using ok fresh [of "next" arg] by (auto simp: cache_ok_def list_all_iff)
  then show ?thesis
    using ok fresh [of "next" arg] unfolding c n cache_ok_def
    by (auto simp: list_all_iff)
qed

lemma memoized_fresh_or_cached:
  assumes "memoized func resolver cache next arg = (r, cache', next')"
  shows "map_of cache (resolver arg) = Some r \<or> (map_of cache (resolver arg) = None \<and> r = func next arg \<and> next' = Suc next)"
  using assms by (auto simp: memoized_def Let_def split: option.splits)

section \<open>The memoized accessors of a layer\<close>

lemma getPosition_memo_fields:
  assumes "getPosition_memo this c = (f, this1)"
  shows "config this1 = config this" "layer_id this1 = layer_id this"
    "meta_bounds this1 = meta_bounds this" "getText_cache this1 = getText_cache this"
    "heap_next this \<le> heap_next this1"
    "map_of (getPosition_cache this1) (pointPosResolver c) = Some f"
proof -
  obtain cache n where m: "memoized pointPosAccessor pointPosResolver (getPosition_cache this) (heap_next this) c = (f, cache, n)"
    and t: "this1 = this\<lparr>getPosition_cache := cache, heap_next := n\<rparr>"
    using assms by (auto simp: getPosition_memo_def split: prod.splits)
  show "config this1 = config this" "layer_id this1 = layer_id this"
    "meta_bounds this1 = meta_bounds this" "getText_cache this1 = getText_cache this"
    by (simp_all add: t)
  show "heap_next this \<le> heap_next this1" using memoized_next [OF m] by (simp add: t)
  show "map_of (getPosition_cache this1) (pointPosResolver c) = Some f"
    using memoized_stored [OF m] by (simp add: t)
qed

lemma getPosition_memo_hit:
  "map_of (getPosition_cache this) (pointPosResolver c) = Some f \<Longrightarrow> getPosition_memo this c = (f, this)"
  by (simp add: getPosition_memo_def memoized_hit)

lemma getPosition_memo_keeps:
  "getPosition_memo this c = (f, this1) \<Longrightarrow> map_of (getPosition_cache this) k = Some g \<Longrightarrow>
   map_of (getPosition_cache this1) k = Some g"
proof -
  assume a: "getPosition_memo this c = (f, this1)" and k: "map_of (getPosition_cache this) k = Some g"
  obtain cache n where m: "memoized pointPosAccessor pointPosResolver (getPosition_cache this) (heap_next this) c = (f, cache, n)"
    and t: "this1 = this\<lparr>getPosition_cache := cache, heap_next := n\<rparr>"
    using a by (auto simp: getPosition_memo_def split: prod.splits)
  show ?thesis using memoized_keeps [OF m k] by (simp add: t)
qed

lemma getPosition_memo_wf:
  assumes "wf_layer this" "getPosition_memo this c = (f, this1)"
  shows "wf_layer this1"
proof -
  obtain cache n where m: "memoized pointPosAccessor pointPosResolver (getPosition_cache this) (heap_next this) c = (f, cache, n)"
    and t: "this1 = this\<lparr>getPosition_cache := cache, heap_next := n\<rparr>"
    using assms(2) by (auto simp: getPosition_memo_def split: prod.splits)
  have "cache_ok pointPosResolver (heap_next this) (getPosition_cache this)"
    using assms(1) by (simp add: wf_layer_def)
  then have "cache_ok pointPosResolver n cache"
    using m by (rule memoized_cache_ok) (simp add: pointPosAccessor_def)
  moreover have "cache_ok pointLabelResolver (heap_next this) (getText_cache this)"
    using assms(1) by (simp add: wf_layer_def)
  then have "cache_ok pointLabelResolver n (getText_cache this)"
    using memoized_next [OF m] by (rule cache_ok_mono)
  ultimately show ?thesis by (simp add: wf_layer_def t)
qed

lemma getText_memo_fields:
  assumes "getText_memo this t = (g, this1)"
  shows "config this1 = config this" "layer_id this1 = layer_id this"
    "meta_bounds this1 = meta_bounds this" "getPosition_cache this1 = getPosition_cache this"
    "heap_next this \<le> heap_next this1"
    "map_of (getText_cache this1) (pointLabelResolver t) = Some g"
proof -
  obtain cache n where m: "memoized pointLabelAccessor pointLabelResolver (getText_cache this) (heap_next this) t = (g, cache, n)"
    and t: "this1 = this\<lparr>getText_cache := cache, heap_next := n\<rparr>"
    using assms by (auto simp: getText_memo_def split: prod.splits)
  show "config this1 = config this" "layer_id this1 = layer_id this"
    "meta_bounds this1 = meta_bounds this" "getPosition_cache this1 = getPosition_cache this"
    by (simp_all add: t)
  show "heap_next this \<le> heap_next this1" using memoized_next [OF m] by (simp add: t)
  show "map_of (getText_cache this1) (pointLabelResolver t) = Some g"
    using memoized_stored [OF m] by (simp add: t)
qed

lemma getText_memo_hit:
  "map_of (getText_cache this) (pointLabelResolver t) = Some g \<Longrightarrow> getText_memo this t = (g, this)"
  by (simp add: getText_memo_def memoized_hit)

lemma getText_memo_wf:
  assumes "wf_layer this" "getText_memo this t = (g, this1)"
  shows "wf_layer this1"
proof -
  obtain cache n where m: "memoized pointLabelAccessor pointLabelResolver (getText_cache this) (heap_next this) t = (g, cache, n)"
    and t: "this1 = this\<lparr>getText_cache := cache, heap_next := n\<rparr>"
    using assms(2) by (auto simp: getText_memo_def split: prod.splits)
  have "cache_ok pointLabelResolver (heap_next this) (getText_cache this)"
    using assms(1) by (simp add: wf_layer_def)
  then have "cache_ok pointLabelResolver n cache"
    using m by (rule memoized_cache_ok) (simp add: pointLabelAccessor_def)
  moreover have "cache_ok pointPosResolver (heap_next this) (getPosition_cache this)"
    using assms(1) by (simp add: wf_layer_def)
  then have "cache_ok pointPosResolver n (getPosition_cache this)"
    using memoized_next [OF m] by (rule cache_ok_mono)
  ultimately show ?thesis by (simp add: wf_layer_def t)
qed

lemma wf_layer_heap_mono:
  assumes "wf_layer this" "heap_next this \<le> n"
  shows "wf_layer (this\<lparr>heap_next := n\<rparr>)"
proof -
  have p: "cache_ok pointPosResolver (heap_next this) (getPosition_cache this)"
    and t: "cache_ok pointLabelResolver (heap_next this) (getText_cache this)"
    using assms(1) by (simp_all add: wf_layer_def)
  have "cache_ok pointPosResolver n (getPosition_cache this)"
    using p assms(2) by (rule cache_ok_mono)
  moreover have "cache_ok pointLabelResolver n (getText_cache this)"
    using t assms(2) by (rule cache_ok_mono)
  ultimately show ?thesis by (simp add: wf_layer_def)
qed

lemma wf_layer_meta: "wf_layer (this\<lparr>meta_bounds := b\<rparr>) = wf_layer this"
  by (simp add: wf_layer_def)

lemma wf_layer_config: "wf_layer (this\<lparr>config := cfg\<rparr>) = wf_layer this"
  by (simp add: wf_layer_def)

lemma wf_layer_PointLayer: "wf_layer (PointLayer ident cfg ref)"
  by (simp add: wf_layer_def PointLayer_def cache_ok_def)

text \<open>In a well-formed layer the accessor fetched for the columns computes their positions.\<close>

lemma getPosition_memo_behaviour:
  assumes "wf_layer this" "getPosition_memo this c = (f, this1)"
  shows "pointPosResolver (captured f) = pointPosResolver c" "position_of (captured f) = position_of c"
    "fn_ref f < heap_next this1"
proof -
  have "wf_layer this1" using assms by (rule getPosition_memo_wf)
  then have "cache_ok pointPosResolver (heap_next this1) (getPosition_cache this1)"
    by (simp add: wf_layer_def)
  from cache_ok_lookup [OF this getPosition_memo_fields(6) [OF assms(2)]]
  show key: "pointPosResolver (captured f) = pointPosResolver c" and "fn_ref f < heap_next this1"
    by simp_all
  from key show "position_of (captured f) = position_of c" by (rule position_of_cong)
qed

lemma getText_memo_behaviour:
  assumes "wf_layer this" "getText_memo this t = (g, this1)"
  shows "pointLabelResolver (captured g) = pointLabelResolver t" "fn_ref g < heap_next this1"
proof -
  have "wf_layer this1" using assms by (rule getText_memo_wf)
  then have "cache_ok pointLabelResolver (heap_next this1) (getText_cache this1)"
    by (simp add: wf_layer_def)
  from cache_ok_lookup [OF this getText_memo_fields(6) [OF assms(2)]]
  show "pointLabelResolver (captured g) = pointLabelResolver t" "fn_ref g < heap_next this1" by simp_all
qed

text \<open>\<^verbatim>\<open>updateLayerMeta\<close> after the accessor has been fetched: a cache hit, then the bounds.\<close>

lemma updateLayerMeta_after:
  assumes "getPositionAccessor this = (f, this1)"
  shows "updateLayerMeta host this1 allData =
         this1\<lparr>meta_bounds := Some (getPointsBounds host allData (\<lambda>d. call_position f \<lparr>d_data = Some d\<rparr>))\<rparr>"
proof -
  have "config this1 = config this"
    and "map_of (getPosition_cache this1) (pointPosResolver (columns (config this))) = Some f"
    using assms getPosition_memo_fields [of this "columns (config this)" f this1]
    by (simp_all add: getPositionAccessor_def)
  then have "getPositionAccessor this1 = (f, this1)"
    by (simp add: getPositionAccessor_def getPosition_memo_hit)
  then show ?thesis by (simp add: updateLayerMeta_def)
qed

section \<open>The stages of a formatting pass\<close>

lemma js_index_in_range:
  "0 \<le> i \<Longrightarrow> i < int (length xs) \<Longrightarrow> js_index xs i = Some (xs ! nat i)"
  by (simp add: js_index_def)

lemma reduce_rows_in_range:
  "in_range allData filteredIndex \<Longrightarrow>
   reduce_rows f allData filteredIndex accu = Inr (accu @ retained_rows (captured f) allData filteredIndex)"
proof (induction filteredIndex arbitrary: accu)
  case Nil
  then show ?case by (simp add: retained_rows_def)
next
  case (Cons i rest)
  then have i: "js_index allData i = Some (allData ! nat i)" and r: "in_range allData rest"
    by (simp_all add: in_range_def js_index_in_range)
  show ?case
    using Cons.IH [OF r] i
    by (simp add: call_position_def retained_rows_def finite_position_def)
qed

lemma reduce_rows_out_of_range:
  "js_index allData i = None \<Longrightarrow> reduce_rows f allData (i # rest) accu = Inl TypeError"
  by (simp add: call_position_def)

lemma layerRows_reuse:
  assumes "reuseData oldLayerData op f"
  shows "\<exists>old d. oldLayerData = Some old \<and> old_data old = Some d \<and>
           layerRows this f allData filteredIndex oldLayerData op = (Inr d, this)"
  using assms by (auto simp: reuseData_def layerRows_def split: option.splits)

lemma layerRows_rebuild:
  assumes "\<not> reuseData oldLayerData op f" "in_range allData filteredIndex"
  shows "layerRows this f allData filteredIndex oldLayerData op =
           (Inr \<lparr>arr_ref = heap_next this, elems = retained_rows (captured f) allData filteredIndex\<rparr>,
            this\<lparr>heap_next := Suc (heap_next this)\<rparr>)"
  using assms by (simp add: layerRows_def reduce_rows_in_range)

lemma layerRows_state:
  "snd (layerRows this f allData filteredIndex oldLayerData op) =
     (if reuseData oldLayerData op f then this else this\<lparr>heap_next := Suc (heap_next this)\<rparr>)"
  by (auto simp: layerRows_def split: option.splits sum.splits)

lemma layerCharacterSet_state:
  "\<exists>n\<ge>heap_next this. snd (layerCharacterSet host this label g ds oldLayerData op) = this\<lparr>heap_next := n\<rparr>"
proof (cases "snd (layerCharacterSet host this label g ds oldLayerData op) = this")
  case True
  then have "snd (layerCharacterSet host this label g ds oldLayerData op) = this\<lparr>heap_next := heap_next this\<rparr>"
    by simp
  then show ?thesis by blast
next
  case False
  then have "snd (layerCharacterSet host this label g ds oldLayerData op) = this\<lparr>heap_next := Suc (heap_next this)\<rparr>"
    by (auto simp: layerCharacterSet_def split: option.splits sum.splits if_splits)
  then show ?thesis by (metis le_SucI order_refl)
qed

lemma layerCharacterSet_reuse:
  assumes "reuseLabels oldLayerData op g"
  shows "\<exists>old c. oldLayerData = Some old \<and> old_labelCharacterSet old = Some c \<and>
           layerCharacterSet host this label g ds oldLayerData op = (Inr c, this)"
  using assms by (auto simp: reuseLabels_def layerCharacterSet_def split: option.splits)

lemma layerCharacterSet_rebuild:
  assumes "\<not> reuseLabels oldLayerData op g"
  shows "layerCharacterSet host this label g ds oldLayerData op =
           (case distinctCharacters (numberToString host) label g ds of
              Inl e \<Rightarrow> (Inl e, this)
            | Inr cs \<Rightarrow> (Inr \<lparr>arr_ref = heap_next this, elems = cs\<rparr>, this\<lparr>heap_next := Suc (heap_next this)\<rparr>))"
  using assms by (simp add: layerCharacterSet_def)

section \<open>A formatting pass as a whole\<close>

lemma formatLayerData_stages:
  assumes p: "getPositionAccessor this = (f, this1)"
  shows "formatLayerData host this allData filteredIndex oldLayerData op =
     (case layerRows
             (if positionChanged oldLayerData f
              then this1\<lparr>meta_bounds :=
                     Some (getPointsBounds host allData (\<lambda>d. call_position f \<lparr>d_data = Some d\<rparr>))\<rparr>
              else this1)
             f allData filteredIndex oldLayerData op of
        (Inl e, this3) \<Rightarrow> (Inl e, this3)
      | (Inr dat, this3) \<Rightarrow>
          (case getText_memo this3 (textLabel (config this)) of
             (g, this4) \<Rightarrow>
               (case layerCharacterSet host this4 (textLabel (config this)) g (elems dat) oldLayerData op of
                  (Inl e, this5) \<Rightarrow> (Inl e, this5)
                | (Inr labelChars, this5) \<Rightarrow>
                    (Inr \<lparr>data = dat, labelCharacterSet = labelChars, getPosition = f,
                          getFillColor = fillColorAccessor host (config this),
                          getLineColor = lineColorAccessor host (config this),
                          getRadius = radiusAccessor host (config this),
                          getText = g\<rparr>,
                     this5))))"
  by (simp add: formatLayerData_def p updateLayerMeta_after [OF p])

lemma formatLayerData_InrE:
  assumes r: "formatLayerData host this allData filteredIndex oldLayerData op = (Inr out, this')"
  obtains f this1 this3 g this4 where
    "getPositionAccessor this = (f, this1)"
    "layerRows
       (if positionChanged oldLayerData f
        then this1\<lparr>meta_bounds :=
               Some (getPointsBounds host allData (\<lambda>d. call_position f \<lparr>d_data = Some d\<rparr>))\<rparr>
        else this1)
       f allData filteredIndex oldLayerData op = (Inr (data out), this3)"
    "getText_memo this3 (textLabel (config this)) = (g, this4)"
    "layerCharacterSet host this4 (textLabel (config this)) g (elems (data out)) oldLayerData op =
       (Inr (labelCharacterSet out), this')"
    "getPosition out = f" "getText out = g"
    "getFillColor out = fillColorAccessor host (config this)"
    "getLineColor out = lineColorAccessor host (config this)"
    "getRadius out = radiusAccessor host (config this)"
proof -
  obtain f this1 where p: "getPositionAccessor this = (f, this1)" by (cases "getPositionAccessor this")
  show ?thesis
    using r that [OF p] unfolding formatLayerData_stages [OF p]
    by (auto split: prod.splits sum.splits)
qed

lemma formatLayerData_InrI:
  assumes "getPositionAccessor this = (f, this1)"
    "layerRows
       (if positionChanged oldLayerData f
        then this1\<lparr>meta_bounds :=
               Some (getPointsBounds host allData (\<lambda>d. call_position f \<lparr>d_data = Some d\<rparr>))\<rparr>
        else this1)
       f allData filteredIndex oldLayerData op = (Inr dat, this3)"
    "getText_memo this3 (textLabel (config this)) = (g, this4)"
    "layerCharacterSet host this4 (textLabel (config this)) g (elems dat) oldLayerData op =
       (Inr labelChars, this5)"
  shows "formatLayerData host this allData filteredIndex oldLayerData op =
    (Inr \<lparr>data = dat, labelCharacterSet = labelChars, getPosition = f,
          getFillColor = fillColorAccessor host (config this),
          getLineColor = lineColorAccessor host (config this),
          getRadius = radiusAccessor host (config this),
          getText = g\<rparr>,
     this5)"
  by (simp add: formatLayerData_stages [OF assms(1)] assms(2-4))

text \<open>
  Where a pass leaves the layer: after the rows stage when that stage threw, after the
  character set stage otherwise.
\<close>

lemma formatLayerData_state:
  fixes host :: "('s, 'b, 'm) host" and allData :: "row list" and oldLayerData :: "old_layer_data option"
    and this1 :: "'b layer"
  assumes p: "getPositionAccessor this = (f, this1)"
  defines "this2 \<equiv> (if positionChanged oldLayerData f
        then this1\<lparr>meta_bounds :=
               Some (getPointsBounds host allData (\<lambda>d. call_position f \<lparr>d_data = Some d\<rparr>))\<rparr>
        else this1)"
  shows "snd (formatLayerData host this allData filteredIndex oldLayerData op) =
           snd (layerRows this2 f allData filteredIndex oldLayerData op) \<or>
         (\<exists>dat g this4.
            getText_memo (snd (layerRows this2 f allData filteredIndex oldLayerData op))
              (textLabel (config this)) = (g, this4) \<and>
            snd (formatLayerData host this allData filteredIndex oldLayerData op) =
              snd (layerCharacterSet host this4 (textLabel (config this)) g dat oldLayerData op))"
proof -
  let ?R = "layerRows this2 f allData filteredIndex oldLayerData op"
  let ?F = "formatLayerData host this allData filteredIndex oldLayerData op"
  note eq = formatLayerData_stages [OF p, of host allData filteredIndex oldLayerData op, folded this2_def]
  show ?thesis
  proof (cases "fst ?R")
    case (Inl e)
    then obtain this3 where R: "?R = (Inl e, this3)" by (cases ?R) simp
    then have "?F = (Inl e, this3)" unfolding eq by simp
    with R show ?thesis by simp
  next
    case (Inr dat)
    then obtain this3 where R: "?R = (Inr dat, this3)" by (cases ?R) simp
    obtain g this4 where g: "getText_memo this3 (textLabel (config this)) = (g, this4)"
      by (cases "getText_memo this3 (textLabel (config this))")
    let ?C = "layerCharacterSet host this4 (textLabel (config this)) g (elems dat) oldLayerData op"
    have "snd ?F = snd ?C"
      unfolding eq by (simp add: R g split: prod.splits sum.splits)
    with g R show ?thesis by auto
  qed
qed

text \<open>
  What holds after line 228 and is kept by allocation and by fetching the label accessor
  holds when the pass ends, whether it returns or throws.
\<close>

lemma formatLayerData_state_rule:
  fixes host :: "('s, 'b, 'm) host" and allData :: "row list" and oldLayerData :: "old_layer_data option"
    and this1 :: "'b layer"
  assumes p: "getPositionAccessor this = (f, this1)"
    and start: "Q (if positionChanged oldLayerData f
        then this1\<lparr>meta_bounds :=
               Some (getPointsBounds host allData (\<lambda>d. call_position f \<lparr>d_data = Some d\<rparr>))\<rparr>
        else this1)"
    and alloc: "\<And>t n. Q t \<Longrightarrow> heap_next t \<le> n \<Longrightarrow> Q (t\<lparr>heap_next := n\<rparr>)"
    and label: "\<And>t g t'. Q t \<Longrightarrow> getText_memo t (textLabel (config this)) = (g, t') \<Longrightarrow> Q t'"
  shows "Q (snd (formatLayerData host this allData filteredIndex oldLayerData op))"
proof -
  let ?this2 = "if positionChanged oldLayerData f
        then this1\<lparr>meta_bounds :=
               Some (getPointsBounds host allData (\<lambda>d. call_position f \<lparr>d_data = Some d\<rparr>))\<rparr>
        else this1"
  let ?R = "layerRows ?this2 f allData filteredIndex oldLayerData op"
  let ?F = "formatLayerData host this allData filteredIndex oldLayerData op"
  have rows: "Q (snd ?R)"
  proof (cases "reuseData oldLayerData op f")
    case True
    then show ?thesis using start by (simp add: layerRows_state)
  next
    case False
    then have "snd ?R = ?this2\<lparr>heap_next := Suc (heap_next ?this2)\<rparr>"
      by (simp add: layerRows_state)
    moreover have "Q (?this2\<lparr>heap_next := Suc (heap_next ?this2)\<rparr>)"
      using start by (rule alloc) simp
    ultimately show ?thesis by simp
  qed
  from formatLayerData_state [OF p, of host allData filteredIndex oldLayerData op]
  consider "snd ?F = snd ?R"
    | dat g this4 where "getText_memo (snd ?R) (textLabel (config this)) = (g, this4)"
        "snd ?F = snd (layerCharacterSet host this4 (textLabel (config this)) g dat oldLayerData op)"
    by blast
  then show ?thesis
  proof cases
    case 1
    with rows show ?thesis by simp
  next
    case 2
    from rows 2(1) have q4: "Q this4" by (rule label)
    obtain n where "n \<ge> heap_next this4"
      and "snd (layerCharacterSet host this4 (textLabel (config this)) g dat oldLayerData op) = this4\<lparr>heap_next := n\<rparr>"
      using layerCharacterSet_state by blast
    with alloc [OF q4, of n] 2(2) show ?thesis by simp
  qed
qed

lemma formatLayerData_meta:
  assumes p: "getPositionAccessor this = (f, this1)"
  shows "meta_bounds (snd (formatLayerData host this allData filteredIndex oldLayerData op)) =
     (if positionChanged oldLayerData f
      then Some (getPointsBounds host allData (\<lambda>d. call_position f \<lparr>d_data = Some d\<rparr>))
      else meta_bounds this)"
proof -
  have m: "meta_bounds this1 = meta_bounds this"
    using p getPosition_memo_fields(3) by (simp add: getPositionAccessor_def)
  show ?thesis
    by (rule formatLayerData_state_rule [OF p]) (auto simp: m dest: getText_memo_fields(3))
qed

lemma formatLayerData_config:
  "config (snd (formatLayerData host this allData filteredIndex oldLayerData op)) = config this"
proof -
  obtain f this1 where p: "getPositionAccessor this = (f, this1)" by (cases "getPositionAccessor this")
  have m: "config this1 = config this"
    using p getPosition_memo_fields(1) by (simp add: getPositionAccessor_def)
  show ?thesis
    by (rule formatLayerData_state_rule [OF p]) (auto simp: m dest: getText_memo_fields(1))
qed

lemma formatLayerData_layer_id:
  "layer_id (snd (formatLayerData host this allData filteredIndex oldLayerData op)) = layer_id this"
proof -
  obtain f this1 where p: "getPositionAccessor this = (f, this1)" by (cases "getPositionAccessor this")
  have m: "layer_id this1 = layer_id this"
    using p getPosition_memo_fields(2) by (simp add: getPositionAccessor_def)
  show ?thesis
    by (rule formatLayerData_state_rule [OF p]) (auto simp: m dest: getText_memo_fields(2))
qed

lemma formatLayerData_position_cache:
  assumes p: "getPositionAccessor this = (f, this1)"
  shows "getPosition_cache (snd (formatLayerData host this allData filteredIndex oldLayerData op)) =
         getPosition_cache this1"
  by (rule formatLayerData_state_rule [OF p]) (auto dest: getText_memo_fields(4))

lemma formatLayerData_heap:
  "heap_next this \<le> heap_next (snd (formatLayerData host this allData filteredIndex oldLayerData op))"
proof -
  obtain f this1 where p: "getPositionAccessor this = (f, this1)" by (cases "getPositionAccessor this")
  have m: "heap_next this \<le> heap_next this1"
    using p getPosition_memo_fields(5) by (simp add: getPositionAccessor_def)
  show ?thesis
    by (rule formatLayerData_state_rule [OF p]) (use m in \<open>auto dest: getText_memo_fields(5)\<close>)
qed

lemma formatLayerData_wf:
  assumes "wf_layer this"
  shows "wf_layer (snd (formatLayerData host this allData filteredIndex oldLayerData op))"
proof -
  obtain f this1 where p: "getPositionAccessor this = (f, this1)" by (cases "getPositionAccessor this")
  have m: "wf_layer this1"
    using p assms getPosition_memo_wf by (simp add: getPositionAccessor_def)
  show ?thesis
  proof (rule formatLayerData_state_rule [OF p])
    show "wf_layer (if positionChanged oldLayerData f
        then this1\<lparr>meta_bounds :=
               Some (getPointsBounds host allData (\<lambda>d. call_position f \<lparr>d_data = Some d\<rparr>))\<rparr>
        else this1)"
      using m by (simp add: wf_layer_meta)
  qed (auto intro: wf_layer_heap_mono getText_memo_wf)
qed

section \<open>Labels and their characters\<close>

lemma first_occurrences_foldl:
  "set (foldl (\<lambda>seen x. if x \<in> set seen then seen else seen @ [x]) acc xs) = set acc \<union> set xs \<and>
   (distinct acc \<longrightarrow> distinct (foldl (\<lambda>seen x. if x \<in> set seen then seen else seen @ [x]) acc xs))"
  by (induction xs arbitrary: acc) auto

lemma set_first_occurrences: "set (first_occurrences xs) = set xs"
  using first_occurrences_foldl [of "[]" xs] by (simp add: first_occurrences_def)

lemma distinct_first_occurrences: "distinct (first_occurrences xs)"
  using first_occurrences_foldl [of "[]" xs] by (simp add: first_occurrences_def)

lemma distinct_uniq: "distinct (uniq s)"
  by (simp add: uniq_def distinct_first_occurrences)

lemma uniq_Nil: "uniq [] = []"
  by (simp add: uniq_def)

text \<open>Without a high surrogate the code points of a string are its code units.\<close>

lemma code_points_units:
  "\<forall>u\<in>set s. \<not> is_high_surrogate u \<Longrightarrow> code_points s = map (\<lambda>u. [u]) s"
  by (induction s rule: code_points.induct) auto

lemma set_uniq_bmp:
  assumes "bmp s"
  shows "set (uniq s) = (\<lambda>u. [u]) ` set s"
proof -
  from assms have "\<forall>u\<in>set s. \<not> is_high_surrogate u" by (simp add: bmp_def list_all_iff)
  then have "code_points s = map (\<lambda>u. [u]) s" by (rule code_points_units)
  then show ?thesis by (auto simp: uniq_def set_first_occurrences)
qed

lemma bmp_concat: "bmp (concat ss) \<longleftrightarrow> (\<forall>s\<in>set ss. bmp s)"
  by (auto simp: bmp_def list_all_iff)

lemma map_labels_Inr_iff:
  "map_labels numText g ds = Inr ss \<longleftrightarrow> map (call_label numText g) ds = map Inr ss"
proof (induction ds arbitrary: ss)
  case Nil
  then show ?case by auto
next
  case (Cons d ds)
  show ?case
  proof (cases "call_label numText g d")
    case (Inl e)
    then show ?thesis by (cases ss) auto
  next
    case (Inr s)
    show ?thesis
    proof (cases "map_labels numText g ds")
      case (Inl e)
      with Cons.IH have "\<And>ss'. map (call_label numText g) ds \<noteq> map Inr ss'" by auto
      with Inl Inr show ?thesis by (cases ss) auto
    next
      case r: (Inr ss')
      with Cons.IH [of ss'] have "map (call_label numText g) ds = map Inr ss'" by simp
      with Inr r show ?thesis by (cases ss) (auto simp: inj_map_eq_map)
    qed
  qed
qed

lemma map_labels_defined:
  assumes "\<forall>d\<in>set ds. \<exists>s. call_label numText g d = Inr s"
  shows "\<exists>ss. map_labels numText g ds = Inr ss"
  using assms
proof (induction ds)
  case Nil
  then show ?case by simp
next
  case (Cons d ds)
  then obtain s ss where "call_label numText g d = Inr s" "map_labels numText g ds = Inr ss"
    by auto
  then show ?case by simp
qed

lemma map_labels_chars:
  assumes "map_labels numText g ds = Inr ss"
  shows "set (concat ss) = {c. \<exists>d\<in>set ds. \<exists>s. call_label numText g d = Inr s \<and> c \<in> set s}"
    and "\<forall>d\<in>set ds. \<exists>s. call_label numText g d = Inr s"
proof -
  from assms have m: "map (call_label numText g) ds = map Inr ss" by (simp add: map_labels_Inr_iff)
  then have len: "length ds = length ss" by (metis length_map)
  have nth: "\<And>i. i < length ds \<Longrightarrow> call_label numText g (ds ! i) = Inr (ss ! i)"
    using m len by (metis nth_map)
  show all: "\<forall>d\<in>set ds. \<exists>s. call_label numText g d = Inr s"
    using nth by (auto simp: in_set_conv_nth)
  show "set (concat ss) = {c. \<exists>d\<in>set ds. \<exists>s. call_label numText g d = Inr s \<and> c \<in> set s}"
  proof (intro set_eqI iffI)
    fix c assume "c \<in> set (concat ss)"
    then obtain s where "s \<in> set ss" "c \<in> set s" by auto
    then obtain i where "i < length ss" "ss ! i = s" by (auto simp: in_set_conv_nth)
    with nth len have "call_label numText g (ds ! i) = Inr s" "ds ! i \<in> set ds" by auto
    with \<open>c \<in> set s\<close> show "c \<in> {c. \<exists>d\<in>set ds. \<exists>s. call_label numText g d = Inr s \<and> c \<in> set s}"
      by blast
  next
    fix c assume "c \<in> {c. \<exists>d\<in>set ds. \<exists>s. call_label numText g d = Inr s \<and> c \<in> set s}"
    then obtain d s where d: "d \<in> set ds" "call_label numText g d = Inr s" "c \<in> set s" by blast
    then obtain i where i: "i < length ds" "ds ! i = d" by (auto simp: in_set_conv_nth)
    with nth d have "ss ! i = s" by auto
    with i len have "s \<in> set ss" by auto
    with d show "c \<in> set (concat ss)" by auto
  qed
qed

lemma distinctCharacters_unbound:
  "label_field label = None \<Longrightarrow> distinctCharacters numText label g ds = Inr []"
  by (simp add: distinctCharacters_def uniq_Nil)

lemma distinctCharacters_bound:
  assumes "label_field label = Some fld" "distinctCharacters numText label g ds = Inr cs"
  shows "\<forall>d\<in>set ds. \<exists>s. call_label numText g d = Inr s"
    and "(\<forall>d\<in>set ds. \<forall>s. call_label numText g d = Inr s \<longrightarrow> bmp s) \<Longrightarrow>
         set cs = (\<lambda>u. [u]) ` {c. \<exists>d\<in>set ds. \<exists>s. call_label numText g d = Inr s \<and> c \<in> set s}"
proof -
  from assms obtain ss where ss: "map_labels numText g ds = Inr ss" and cs: "cs = uniq (concat ss)"
    by (auto simp: distinctCharacters_def split: sum.splits)
  show all: "\<forall>d\<in>set ds. \<exists>s. call_label numText g d = Inr s"
    using map_labels_chars(2) [OF ss] .
  assume plain: "\<forall>d\<in>set ds. \<forall>s. call_label numText g d = Inr s \<longrightarrow> bmp s"
  from ss have m: "map (call_label numText g) ds = map Inr ss" by (simp add: map_labels_Inr_iff)
  have "\<forall>s\<in>set ss. bmp s"
  proof
    fix s assume "s \<in> set ss"
    then have "Inr s \<in> set (map (call_label numText g) ds)" unfolding m by simp
    then obtain d where "d \<in> set ds" "call_label numText g d = Inr s" by auto
    with plain show "bmp s" by blast
  qed
  then have "bmp (concat ss)" by (simp add: bmp_concat)
  then show "set cs = (\<lambda>u. [u]) ` {c. \<exists>d\<in>set ds. \<exists>s. call_label numText g d = Inr s \<and> c \<in> set s}"
    using map_labels_chars(1) [OF ss] by (simp add: cs set_uniq_bmp)
qed

lemma distinctCharacters_distinct:
  "distinctCharacters numText label g ds = Inr cs \<Longrightarrow> distinct cs"
  by (auto simp: distinctCharacters_def distinct_uniq split: sum.splits option.splits)

lemma distinctCharacters_defined:
  assumes "label_field label \<noteq> None \<Longrightarrow> \<forall>d\<in>set ds. \<exists>s. call_label numText g d = Inr s"
  shows "\<exists>cs. distinctCharacters numText label g ds = Inr cs"
proof (cases "label_field label")
  case None
  then show ?thesis by (simp add: distinctCharacters_unbound)
next
  case (Some fld)
  with assms map_labels_defined obtain ss where "map_labels numText g ds = Inr ss" by blast
  with Some show ?thesis by (simp add: distinctCharacters_def)
qed

text \<open>
  On labels of the Basic Multilingual Plane the character set does not depend on the order
  of the rows, nor on repetitions.
\<close>

lemma distinctCharacters_permute:
  assumes "distinctCharacters numText label g ds = Inr cs" "set ds' = set ds"
    and plain: "\<forall>d\<in>set ds. \<forall>s. call_label numText g d = Inr s \<longrightarrow> bmp s"
  shows "\<exists>cs'. distinctCharacters numText label g ds' = Inr cs' \<and> set cs' = set cs"
proof (cases "label_field label")
  case None
  with assms show ?thesis by (simp add: distinctCharacters_unbound)
next
  case (Some fld)
  from distinctCharacters_bound [OF Some assms(1)] plain
  have cs: "set cs = (\<lambda>u. [u]) ` {c. \<exists>d\<in>set ds. \<exists>s. call_label numText g d = Inr s \<and> c \<in> set s}"
    and ok: "\<forall>d\<in>set ds. \<exists>s. call_label numText g d = Inr s" by simp_all
  from ok assms(2) have "\<forall>d\<in>set ds'. \<exists>s. call_label numText g d = Inr s" by simp
  then obtain cs' where cs': "distinctCharacters numText label g ds' = Inr cs'"
    using distinctCharacters_defined by blast
  from plain assms(2) have "\<forall>d\<in>set ds'. \<forall>s. call_label numText g d = Inr s \<longrightarrow> bmp s" by simp
  from distinctCharacters_bound(2) [OF Some cs' this] cs assms(2) have "set cs' = set cs" by simp
  with cs' show ?thesis by blast
qed

text \<open>A label accessor over a bound field labels every row that exists.\<close>

lemma call_label_defined:
  "label_field (captured g) \<noteq> None \<Longrightarrow> d_data d \<noteq> None \<Longrightarrow> \<exists>s. call_label numText g d = Inr s"
  by (auto simp: call_label_def split: option.splits)

lemma retained_rows_exist: "\<forall>d\<in>set (retained_rows c allData filteredIndex). d_data d \<noteq> None"
  by (auto simp: retained_rows_def)

lemma retained_rows_cong:
  "position_of c = position_of c' \<Longrightarrow> retained_rows c allData filteredIndex = retained_rows c' allData filteredIndex"
  by (simp add: retained_rows_def finite_position_def [abs_def])

section \<open>Passes that rebuild the rows\<close>

text \<open>
  In a well-formed layer the character set stage never throws on rows that exist: when
  the configuration's label field is bound, so is the field the cached accessor captured.
\<close>

lemma layerCharacterSet_defined:
  assumes wf: "wf_layer this3" and g: "getText_memo this3 label = (g, this4)"
    and rows: "\<forall>d\<in>set ds. d_data d \<noteq> None"
  shows "\<exists>cs this5. layerCharacterSet host this4 label g ds oldLayerData op = (Inr cs, this5)"
proof (cases "reuseLabels oldLayerData op g")
  case True
  from layerCharacterSet_reuse [OF True] show ?thesis by blast
next
  case False
  have "pointLabelResolver (captured g) = pointLabelResolver label"
    using getText_memo_behaviour(1) [OF wf g] .
  then have "label_field label \<noteq> None \<Longrightarrow> label_field (captured g) \<noteq> None"
    by (auto simp: pointLabelResolver_def)
  then have "label_field label \<noteq> None \<Longrightarrow> \<forall>d\<in>set ds. \<exists>s. call_label (numberToString host) g d = Inr s"
    using rows call_label_defined by blast
  then obtain cs where "distinctCharacters (numberToString host) label g ds = Inr cs"
    using distinctCharacters_defined by blast
  then show ?thesis by (simp add: layerCharacterSet_rebuild [OF False])
qed

lemma rebuild_pass:
  assumes wf: "wf_layer this" and rng: "in_range allData filteredIndex"
    and p: "getPositionAccessor this = (f, this1)"
    and cold: "\<not> reuseData oldLayerData op f"
  shows "\<exists>out this'.
           formatLayerData host this allData filteredIndex oldLayerData op = (Inr out, this') \<and>
           getPosition out = f \<and>
           elems (data out) = retained_rows (columns (config this)) allData filteredIndex \<and>
           arr_ref (data out) = heap_next this1 \<and> arr_ref (data out) < heap_next this'"
proof -
  let ?this2 = "if positionChanged oldLayerData f
        then this1\<lparr>meta_bounds :=
               Some (getPointsBounds host allData (\<lambda>d. call_position f \<lparr>d_data = Some d\<rparr>))\<rparr>
        else this1"
  let ?rows = "retained_rows (captured f) allData filteredIndex"
  let ?this3 = "?this2\<lparr>heap_next := Suc (heap_next ?this2)\<rparr>"
  have p': "getPosition_memo this (columns (config this)) = (f, this1)"
    using p by (simp add: getPositionAccessor_def)
  have wf1: "wf_layer this1" using wf p' by (rule getPosition_memo_wf)
  have h2: "heap_next ?this2 = heap_next this1" by simp
  have wf2: "wf_layer ?this2" using wf1 by (simp add: wf_layer_meta)
  have wf3: "wf_layer ?this3" using wf2 by (rule wf_layer_heap_mono) simp
  have same: "?rows = retained_rows (columns (config this)) allData filteredIndex"
    using getPosition_memo_behaviour(2) [OF wf p'] by (rule retained_rows_cong)
  have R: "layerRows ?this2 f allData filteredIndex oldLayerData op =
             (Inr \<lparr>arr_ref = heap_next ?this2, elems = ?rows\<rparr>, ?this3)"
    using cold rng by (rule layerRows_rebuild)
  obtain g this4 where g: "getText_memo ?this3 (textLabel (config this)) = (g, this4)"
    by (cases "getText_memo ?this3 (textLabel (config this))")
  obtain cs this5 where C: "layerCharacterSet host this4 (textLabel (config this)) g
      (elems \<lparr>arr_ref = heap_next ?this2, elems = ?rows\<rparr>) oldLayerData op = (Inr cs, this5)"
    using layerCharacterSet_defined [OF wf3 g, of ?rows host oldLayerData op] retained_rows_exist
    by auto
  have h4: "heap_next ?this3 \<le> heap_next this4" using getText_memo_fields(5) [OF g] .
  have "heap_next this4 \<le> heap_next this5"
    using layerCharacterSet_state [of this4 host "textLabel (config this)" g ?rows oldLayerData op] C
    by auto
  with h4 have h5: "heap_next this1 < heap_next this5" by (auto split: if_splits)
  from formatLayerData_InrI [OF p R g C] h5 same show ?thesis by simp
qed

section \<open>A pass after the columns' key has changed\<close>

text \<open>
  When the configuration is edited between two passes so that the key of the columns
  changes, the next pass gets an accessor that is not the previous one, whatever
  \<^verbatim>\<open>sameData\<close> says.
\<close>

lemma changed_key_new_accessor:
  assumes wf: "wf_layer this"
    and pass1: "formatLayerData host this allData filteredIndex oldLayerData op = (Inr out1, this1)"
    and key: "pointPosResolver (columns cfg') \<noteq> pointPosResolver (columns (config this))"
    and p2: "getPositionAccessor (this1\<lparr>config := cfg'\<rparr>) = (f2, t2)"
  shows "\<not> same_fn (getPosition out1) f2" "wf_layer (this1\<lparr>config := cfg'\<rparr>)"
    "heap_next this1 \<le> heap_next t2"
proof -
  from pass1 obtain f t1 where p: "getPositionAccessor this = (f, t1)" and f: "getPosition out1 = f"
    by (rule formatLayerData_InrE)
  have wf1: "wf_layer this1"
    using formatLayerData_wf [OF wf, of host allData filteredIndex oldLayerData op] pass1 by simp
  then show wf1': "wf_layer (this1\<lparr>config := cfg'\<rparr>)" by (simp add: wf_layer_config)
  have ok: "cache_ok pointPosResolver (heap_next this1) (getPosition_cache this1)"
    using wf1 by (simp add: wf_layer_def)
  have "getPosition_cache this1 = getPosition_cache t1"
    using formatLayerData_position_cache [OF p, of host allData filteredIndex oldLayerData op] pass1
    by simp
  moreover have "map_of (getPosition_cache t1) (pointPosResolver (columns (config this))) = Some f"
    using p getPosition_memo_fields(6) by (simp add: getPositionAccessor_def)
  ultimately have old: "map_of (getPosition_cache this1) (pointPosResolver (columns (config this))) = Some f"
    by simp
  have lt: "fn_ref f < heap_next this1" using cache_ok_lookup [OF ok old] by simp
  obtain cache n where m: "memoized pointPosAccessor pointPosResolver (getPosition_cache this1)
      (heap_next this1) (columns cfg') = (f2, cache, n)"
    and t2: "t2 = this1\<lparr>config := cfg', getPosition_cache := cache, heap_next := n\<rparr>"
    using p2 by (auto simp: getPositionAccessor_def getPosition_memo_def split: prod.splits)
  show "heap_next this1 \<le> heap_next t2" using memoized_next [OF m] by (simp add: t2)
  from memoized_fresh_or_cached [OF m] show "\<not> same_fn (getPosition out1) f2"
  proof
    assume "map_of (getPosition_cache this1) (pointPosResolver (columns cfg')) = Some f2"
    from cache_ok_distinct_refs [OF ok old this] key show ?thesis by (simp add: same_fn_def f)
  next
    assume "map_of (getPosition_cache this1) (pointPosResolver (columns cfg')) = None \<and>
      f2 = pointPosAccessor (heap_next this1) (columns cfg') \<and> n = Suc (heap_next this1)"
    then have "fn_ref f2 = heap_next this1" by (simp add: pointPosAccessor_def)
    with lt show ?thesis by (simp add: same_fn_def f)
  qed
qed

lemma cold_pass_after_key_change:
  assumes wf: "wf_layer this"
    and pass1: "formatLayerData host this allData filteredIndex oldLayerData op = (Inr out1, this1)"
    and key: "pointPosResolver (columns cfg') \<noteq> pointPosResolver (columns (config this))"
    and rng: "in_range allData' filteredIndex'"
  shows "\<exists>out2 this2.
           formatLayerData host (this1\<lparr>config := cfg'\<rparr>) allData' filteredIndex' (previous out1)
             \<lparr>sameData = True\<rparr> = (Inr out2, this2) \<and>
           \<not> same_fn (getPosition out1) (getPosition out2) \<and>
           positionChanged (previous out1) (getPosition out2) \<and>
           \<not> reuseData (previous out1) \<lparr>sameData = True\<rparr> (getPosition out2) \<and>
           meta_bounds this2 =
             Some (getPointsBounds host allData' (\<lambda>d. call_position (getPosition out2) \<lparr>d_data = Some d\<rparr>)) \<and>
           elems (data out2) = retained_rows (columns cfg') allData' filteredIndex' \<and>
           heap_next this1 \<le> arr_ref (data out2) \<and> arr_ref (data out2) < heap_next this2"
proof -
  let ?t = "this1\<lparr>config := cfg'\<rparr>"
  obtain f2 t2 where p2: "getPositionAccessor ?t = (f2, t2)" by (cases "getPositionAccessor ?t")
  note new = changed_key_new_accessor [OF wf pass1 key p2]
  have changed: "positionChanged (previous out1) f2"
    using new(1) by (simp add: positionChanged_def previous_def)
  have cold: "\<not> reuseData (previous out1) \<lparr>sameData = True\<rparr> f2"
    using new(1) by (simp add: reuseData_def previous_def)
  from rebuild_pass [OF new(2) rng p2 cold, of host]
  obtain out2 this2 where
    r: "formatLayerData host ?t allData' filteredIndex' (previous out1) \<lparr>sameData = True\<rparr> = (Inr out2, this2)"
    and f: "getPosition out2 = f2"
    and rows: "elems (data out2) = retained_rows (columns (config ?t)) allData' filteredIndex'"
    and ref: "arr_ref (data out2) = heap_next t2" "arr_ref (data out2) < heap_next this2"
    by blast
  have "meta_bounds this2 =
      Some (getPointsBounds host allData' (\<lambda>d. call_position f2 \<lparr>d_data = Some d\<rparr>))"
    using formatLayerData_meta [OF p2, of host allData' filteredIndex' "previous out1" "\<lparr>sameData = True\<rparr>"]
      r changed by simp
  with r f rows ref new(3) changed cold new(1) show ?thesis by simp
qed

section \<open>Further facts for the claims\<close>

lemma same_indices_same_key:
  assumes "fieldIdx (lat c1) = fieldIdx (lat c2)" "fieldIdx (lng c1) = fieldIdx (lng c2)"
    "map_option fieldIdx (altitude c1) = map_option fieldIdx (altitude c2)"
  shows "pointPosResolver c1 = pointPosResolver c2"
  using assms by (cases "altitude c1"; cases "altitude c2") (simp_all add: pointPosResolver_def)

lemma getPosition_memo_many_keeps:
  "map_of (getPosition_cache t) k = Some f \<Longrightarrow>
   map_of (getPosition_cache (fold (\<lambda>c t. snd (getPosition_memo t c)) cs t)) k = Some f"
proof (induction cs arbitrary: t)
  case Nil
  then show ?case by simp
next
  case (Cons c cs)
  have "getPosition_memo t c = (fst (getPosition_memo t c), snd (getPosition_memo t c))" by simp
  from getPosition_memo_keeps [OF this Cons.prems]
  have "map_of (getPosition_cache (snd (getPosition_memo t c))) k = Some f" .
  from Cons.IH [OF this] show ?case by simp
qed

lemma int_toString_minus_one: "int_toString (- 1) = ''-1''"
  by code_simp

text \<open>
  What \<^verbatim>\<open>renderLayer\<close> emits when the altitude entry is there (and the host's hover rule
  holds of a hovered object only): the primary point layer, then the hover layer exactly
  when the layer is hovered, then the label layer exactly when a label field is bound.
\<close>

lemma renderLayer_sublayers:
  assumes "altitude (columns (config this)) = Some alt"
    and "isLayerHovered host (layer_id this) objectHovered \<Longrightarrow> objectHovered \<noteq> None"
  shows "\<exists>primary hover label.
           renderLayer host this dat idx layerInteraction objectHovered mapState brushConfig =
             Inr ([PointSublayer primary] @
                  (if isLayerHovered host (layer_id this) objectHovered then [HoverSublayer hover] else []) @
                  (if label_field (textLabel (config this)) \<noteq> None then [LabelSublayer label] else []))"
  using assms by (auto simp: renderLayer_def Let_def split: option.splits)

text \<open>
  Glyph completeness on labels of the Basic Multilingual Plane.  When a pass that returns has
  recomputed the character set and no label of a returned row holds a surrogate, the set has
  no repeated element; with no label field bound it is empty; with a label field bound the
  label accessor labels every returned row and the set's elements are exactly the code
  units, hence the characters, of those labels, each as a string of one unit.  Computed from
  any permutation of the returned rows, the set of elements is the same.
\<close>

lemma glyph_completeness_bmp:
  assumes "formatLayerData host this allData filteredIndex oldLayerData op = (Inr out, this')"
    and "\<not> reuseLabels oldLayerData op (getText out)"
    and "\<forall>d\<in>set (elems (data out)). \<forall>s.
           call_label (numberToString host) (getText out) d = Inr s \<longrightarrow> bmp s"
  shows "distinct (elems (labelCharacterSet out)) \<and>
         (case label_field (textLabel (config this)) of
            None \<Rightarrow> elems (labelCharacterSet out) = []
          | Some fld \<Rightarrow>
              (\<forall>d\<in>set (elems (data out)). \<exists>s. call_label (numberToString host) (getText out) d = Inr s) \<and>
              set (elems (labelCharacterSet out)) =
                (\<lambda>u. [u]) ` {c. \<exists>d\<in>set (elems (data out)). \<exists>s.
                      call_label (numberToString host) (getText out) d = Inr s \<and> c \<in> set s}) \<and>
         (\<forall>ds. mset ds = mset (elems (data out)) \<longrightarrow>
            (\<exists>cs. distinctCharacters (numberToString host) (textLabel (config this)) (getText out) ds =
                     Inr cs \<and>
                   set cs = set (elems (labelCharacterSet out))))"
proof -
  from assms(1) obtain g t4 where
    c: "layerCharacterSet host t4 (textLabel (config this)) g (elems (data out)) oldLayerData op =
          (Inr (labelCharacterSet out), this')"
    and g: "getText out = g"
    by (rule formatLayerData_InrE)
  from assms(2) g have cold: "\<not> reuseLabels oldLayerData op g" by simp
  from assms(3) g have plain: "\<forall>d\<in>set (elems (data out)). \<forall>s.
      call_label (numberToString host) g d = Inr s \<longrightarrow> bmp s" by simp
  from c have "\<exists>cs. distinctCharacters (numberToString host) (textLabel (config this)) g (elems (data out)) =
      Inr cs \<and> labelCharacterSet out = \<lparr>arr_ref = heap_next t4, elems = cs\<rparr>"
    unfolding layerCharacterSet_rebuild [OF cold] by (auto split: sum.splits)
  then have d: "distinctCharacters (numberToString host) (textLabel (config this)) g (elems (data out)) =
      Inr (elems (labelCharacterSet out))"
    by auto
  have 1: "distinct (elems (labelCharacterSet out))" using d by (rule distinctCharacters_distinct)
  have 2: "case label_field (textLabel (config this)) of
            None \<Rightarrow> elems (labelCharacterSet out) = []
          | Some fld \<Rightarrow>
              (\<forall>d\<in>set (elems (data out)). \<exists>s. call_label (numberToString host) g d = Inr s) \<and>
              set (elems (labelCharacterSet out)) =
                (\<lambda>u. [u]) ` {c. \<exists>d\<in>set (elems (data out)). \<exists>s.
                      call_label (numberToString host) g d = Inr s \<and> c \<in> set s}"
  proof (cases "label_field (textLabel (config this))")
    case None
    with d show ?thesis by (simp add: distinctCharacters_unbound)
  next
    case (Some fld)
    from distinctCharacters_bound(1) [OF Some d] distinctCharacters_bound(2) [OF Some d plain] Some
    show ?thesis by simp
  qed
  have 3: "\<exists>cs. distinctCharacters (numberToString host) (textLabel (config this)) g ds = Inr cs \<and>
                set cs = set (elems (labelCharacterSet out))"
    if "mset ds = mset (elems (data out))" for ds
  proof -
    from that have "set ds = set (elems (data out))" by (rule mset_eq_setD)
    with d show ?thesis using plain by (rule distinctCharacters_permute)
  qed
  from 1 2 3 show ?thesis unfolding g by blast
qed

section \<open>The concrete layer's first pass\<close>

lemmas example_defs = example_host_def example_columns_def example_config_def example_rows_def
  example_layer_def

lemmas pass_defs = formatLayerData_def getPositionAccessor_def getPosition_memo_def getText_memo_def
  memoized_def updateLayerMeta_def positionChanged_def reuseData_def reuseLabels_def
  layerRows_def layerCharacterSet_def previous_def
  distinctCharacters_def call_position_def position_of_def cell_def js_index_def PointLayer_def
  pointPosAccessor_def pointLabelAccessor_def same_fn_def call_label_def uniq_def first_occurrences_def utf16_def
  pointLabelResolver_def
  fillColorAccessor_def lineColorAccessor_def radiusAccessor_def cScale_def scScale_def rScale_def

lemma example_first_pass:
  "\<exists>out this'.
     formatLayerData example_host example_layer example_rows [0, 1, 2] None \<lparr>sameData = False\<rparr> =
       (Inr out, this') \<and>
     elems (data out) = [\<lparr>d_data = Some (example_rows ! 0)\<rparr>, \<lparr>d_data = Some (example_rows ! 2)\<rparr>] \<and>
     elems (labelCharacterSet out) = [utf16 ''a'', utf16 ''b'', utf16 ''c''] \<and>
     config this' = example_config"
  by (simp add: pass_defs example_defs Let_def)

lemma example_keys:
  "pointPosResolver example_columns = ''1-0--1''"
  "pointPosResolver (example_columns\<lparr>altitude := None\<rparr>) = ''1-0-z''"
  "pointPosResolver (example_columns\<lparr>altitude := Some \<lparr>col_name = Some ''height'', fieldIdx = 2, optional = True\<rparr>\<rparr>) = ''1-0-2''"
  by code_simp+

section \<open>The claims\<close>




text \<open>
  C2.  Idempotence.  When a pass has returned, a second pass on the layer as the first left
  it (same configuration), with the first pass's output as \<^verbatim>\<open>oldLayerData\<close> and
  \<^verbatim>\<open>opt.sameData\<close> set, returns the very row array and character set array of the first
  pass (same reference, same elements) and the same two accessors.  It does so for any
  dataset and index sequence it is given, among them ones whose iteration would throw (the
  rows are not iterated), and leaves the layer exactly as it was: nothing is allocated, the
  bounds are not recomputed.
\<close>

theorem idempotence:
  assumes "formatLayerData host this allData filteredIndex oldLayerData op = (Inr out1, this1)"
  shows "\<exists>out2.
           formatLayerData host this1 allData' filteredIndex' (previous out1) \<lparr>sameData = True\<rparr> =
             (Inr out2, this1) \<and>
           data out2 = data out1 \<and> labelCharacterSet out2 = labelCharacterSet out1 \<and>
           getPosition out2 = getPosition out1 \<and> getText out2 = getText out1"
proof -
  from assms obtain f t1 t3 g t4 where
    p: "getPositionAccessor this = (f, t1)" and
    g: "getText_memo t3 (textLabel (config this)) = (g, t4)" and
    c: "layerCharacterSet host t4 (textLabel (config this)) g (elems (data out1)) oldLayerData op =
          (Inr (labelCharacterSet out1), this1)" and
    f: "getPosition out1 = f" and gt: "getText out1 = g"
    by (rule formatLayerData_InrE)
  have cfg: "config this1 = config this"
    using formatLayerData_config [of host this allData filteredIndex oldLayerData op] assms by simp
  have "getPosition_cache this1 = getPosition_cache t1"
    using formatLayerData_position_cache [OF p, of host allData filteredIndex oldLayerData op] assms
    by simp
  moreover have "map_of (getPosition_cache t1) (pointPosResolver (columns (config this))) = Some f"
    using p getPosition_memo_fields(6) by (simp add: getPositionAccessor_def)
  ultimately have p2: "getPositionAccessor this1 = (f, this1)"
    by (simp add: getPositionAccessor_def cfg getPosition_memo_hit)
  obtain n where "this1 = t4\<lparr>heap_next := n\<rparr>"
    using layerCharacterSet_state [of t4 host "textLabel (config this)" g "elems (data out1)" oldLayerData op] c
    by auto
  then have "getText_cache this1 = getText_cache t4" by simp
  then have g2: "getText_memo this1 (textLabel (config this1)) = (g, this1)"
    using getText_memo_fields(6) [OF g] by (simp add: cfg getText_memo_hit)
  have unchanged: "\<not> positionChanged (previous out1) f"
    by (simp add: positionChanged_def previous_def f same_fn_def)
  have R: "layerRows (if positionChanged (previous out1) f
        then this1\<lparr>meta_bounds :=
               Some (getPointsBounds host allData' (\<lambda>d. call_position f \<lparr>d_data = Some d\<rparr>))\<rparr>
        else this1) f allData' filteredIndex' (previous out1) \<lparr>sameData = True\<rparr> = (Inr (data out1), this1)"
    using unchanged by (simp add: layerRows_def reuseData_def previous_def f same_fn_def)
  have C: "layerCharacterSet host this1 (textLabel (config this1)) g (elems (data out1))
             (previous out1) \<lparr>sameData = True\<rparr> = (Inr (labelCharacterSet out1), this1)"
    by (simp add: layerCharacterSet_def reuseLabels_def previous_def gt same_fn_def)
  from formatLayerData_InrI [OF p2 R g2 C] f gt show ?thesis by simp
qed

theorem idempotence_witness:
  "\<exists>out1 this1 out2 out3.
     formatLayerData example_host example_layer example_rows [0, 1, 2] None \<lparr>sameData = False\<rparr> =
       (Inr out1, this1) \<and>
     formatLayerData example_host this1 example_rows [0, 1, 2] (previous out1) \<lparr>sameData = True\<rparr> =
       (Inr out2, this1) \<and>
     data out2 = data out1 \<and> labelCharacterSet out2 = labelCharacterSet out1 \<and>
     elems (data out2) = [\<lparr>d_data = Some (example_rows ! 0)\<rparr>, \<lparr>d_data = Some (example_rows ! 2)\<rparr>] \<and>
     formatLayerData example_host this1 example_rows [7] (previous out1) \<lparr>sameData = True\<rparr> =
       (Inr out3, this1) \<and>
     data out3 = data out1 \<and>
     fst (formatLayerData example_host this1 example_rows [7] (previous out1) \<lparr>sameData = False\<rparr>) =
       Inl TypeError"
proof -
  from example_first_pass obtain out1 this1 where
    p: "formatLayerData example_host example_layer example_rows [0, 1, 2] None \<lparr>sameData = False\<rparr> =
       (Inr out1, this1)"
    and e: "elems (data out1) = [\<lparr>d_data = Some (example_rows ! 0)\<rparr>, \<lparr>d_data = Some (example_rows ! 2)\<rparr>]"
    by blast
  from idempotence [OF p, of example_rows "[0, 1, 2]"] obtain out2 where 2:
    "formatLayerData example_host this1 example_rows [0, 1, 2] (previous out1) \<lparr>sameData = True\<rparr> =
       (Inr out2, this1)"
    "data out2 = data out1" "labelCharacterSet out2 = labelCharacterSet out1"
    by blast
  from idempotence [OF p, of example_rows "[7]"] obtain out3 where 3:
    "formatLayerData example_host this1 example_rows [7] (previous out1) \<lparr>sameData = True\<rparr> =
       (Inr out3, this1)"
    "data out3 = data out1"
    by blast
  have "fst (formatLayerData example_host this1 example_rows [7] (previous out1) \<lparr>sameData = False\<rparr>) =
       Inl TypeError"
    by (simp add: formatLayerData_def layerRows_def reuseData_def previous_def call_position_def
        js_index_def example_rows_def split: prod.splits)
  with p e 2 3 show ?thesis by auto
qed

text \<open>
  C3.  The memoized \<^verbatim>\<open>getPosition\<close> of a layer returns the same accessor (the same
  function object) for two column bindings with the same \<^verbatim>\<open>fieldIdx\<close> of latitude,
  longitude and altitude (a missing altitude entry on both sides counts as the same),
  whether or not the binding objects are the same and whatever bindings it was called
  with in between.
\<close>

theorem getPosition_same_indices_same_accessor:
  assumes "fieldIdx (lat c1) = fieldIdx (lat c2)" and "fieldIdx (lng c1) = fieldIdx (lng c2)"
    and "map_option fieldIdx (altitude c1) = map_option fieldIdx (altitude c2)"
  shows "fst (getPosition_memo
                (fold (\<lambda>c t. snd (getPosition_memo t c)) between (snd (getPosition_memo this c1))) c2) =
         fst (getPosition_memo this c1) \<and>
         same_fn (fst (getPosition_memo
                (fold (\<lambda>c t. snd (getPosition_memo t c)) between (snd (getPosition_memo this c1))) c2))
           (fst (getPosition_memo this c1))"
proof -
  let ?f = "fst (getPosition_memo this c1)" and ?t = "snd (getPosition_memo this c1)"
  have "getPosition_memo this c1 = (?f, ?t)" by simp
  then have "map_of (getPosition_cache ?t) (pointPosResolver c1) = Some ?f"
    by (rule getPosition_memo_fields(6))
  then have "map_of (getPosition_cache (fold (\<lambda>c t. snd (getPosition_memo t c)) between ?t))
      (pointPosResolver c2) = Some ?f"
    using same_indices_same_key [OF assms] getPosition_memo_many_keeps by metis
  then show ?thesis by (simp add: getPosition_memo_hit same_fn_def)
qed

theorem getPosition_same_indices_same_accessor_witness:
  "example_columns \<noteq> example_columns\<lparr>lat := \<lparr>col_name = Some ''latitude'', fieldIdx = 1, optional = False\<rparr>\<rparr> \<and>
   fst (getPosition_memo
          (fold (\<lambda>c t. snd (getPosition_memo t c)) [example_columns\<lparr>altitude := None\<rparr>]
             (snd (getPosition_memo example_layer example_columns)))
          (example_columns\<lparr>lat := \<lparr>col_name = Some ''latitude'', fieldIdx = 1, optional = False\<rparr>\<rparr>)) =
   fst (getPosition_memo example_layer example_columns)"
  using getPosition_same_indices_same_accessor
    [of example_columns "example_columns\<lparr>lat := \<lparr>col_name = Some ''latitude'', fieldIdx = 1, optional = False\<rparr>\<rparr>"
        "[example_columns\<lparr>altitude := None\<rparr>]" example_layer]
  by (simp add: example_columns_def)

text \<open>
  C4.  Frame of the bounds.  A pass recomputes the bounds, by \<^verbatim>\<open>updateLayerMeta\<close> over all
  of \<^verbatim>\<open>allData\<close> and not over the filtered rows, exactly when there is no previous output
  or the previous output's position accessor is not (by reference) the current one; on
  every other pass \<^verbatim>\<open>meta.bounds\<close> is what it was.  This holds whether the pass returns or
  throws, and the bounds after a pass do not depend on \<^verbatim>\<open>opt.sameData\<close> or on the
  filtered indices.
\<close>

theorem bounds_recomputed_iff_accessor_changed:
  "meta_bounds (snd (formatLayerData host this allData filteredIndex oldLayerData op)) =
     (if (case oldLayerData of
            None \<Rightarrow> True
          | Some old \<Rightarrow>
              (case old_getPosition old of
                 None \<Rightarrow> True
               | Some g \<Rightarrow> fn_ref g \<noteq> fn_ref (fst (getPositionAccessor this))))
      then Some (getPointsBounds host allData
                   (\<lambda>d. call_position (fst (getPositionAccessor this)) \<lparr>d_data = Some d\<rparr>))
      else meta_bounds this) \<and>
   meta_bounds (snd (formatLayerData host this allData filteredIndex' oldLayerData op')) =
     meta_bounds (snd (formatLayerData host this allData filteredIndex oldLayerData op))"
proof -
  let ?f = "fst (getPositionAccessor this)"
  have p: "getPositionAccessor this = (?f, snd (getPositionAccessor this))" by simp
  have c: "positionChanged oldLayerData ?f =
        (case oldLayerData of
            None \<Rightarrow> True
          | Some old \<Rightarrow> (case old_getPosition old of None \<Rightarrow> True | Some g \<Rightarrow> fn_ref g \<noteq> fn_ref ?f))"
    by (simp add: positionChanged_def same_fn_def split: option.splits)
  show ?thesis
    unfolding formatLayerData_meta [OF p] c by simp
qed

text \<open>
  C5.  Cache invalidation.  Let a pass run on a layer whose altitude entry has
  \<^verbatim>\<open>fieldIdx\<close> -1, and let the configuration then be edited so that the altitude's
  \<^verbatim>\<open>fieldIdx\<close> is an index \<open>k \<ge> 0\<close>.  The next pass, given the first pass's output and
  \<^verbatim>\<open>sameData\<close>, is a cold one: its position accessor is a different function object, so
  the bounds are recomputed over the whole dataset, and the rows are a newly allocated
  array holding the rows retained under the new columns.
\<close>

theorem altitude_bound_forces_cold_pass:
  assumes "wf_layer this"
    and "altitude (columns (config this)) = Some a" and "fieldIdx a = -1" and "0 \<le> k"
    and "formatLayerData host this allData filteredIndex oldLayerData op = (Inr out1, this1)"
    and "in_range allData' filteredIndex'"
  shows "\<exists>out2 this2.
           formatLayerData host
             (this1\<lparr>config := (config this)\<lparr>columns :=
                 (columns (config this))\<lparr>altitude := Some (a\<lparr>fieldIdx := k\<rparr>)\<rparr>\<rparr>\<rparr>)
             allData' filteredIndex' (previous out1) \<lparr>sameData = True\<rparr> = (Inr out2, this2) \<and>
           \<not> same_fn (getPosition out1) (getPosition out2) \<and>
           positionChanged (previous out1) (getPosition out2) \<and>
           \<not> reuseData (previous out1) \<lparr>sameData = True\<rparr> (getPosition out2) \<and>
           meta_bounds this2 =
             Some (getPointsBounds host allData'
                     (\<lambda>d. call_position (getPosition out2) \<lparr>d_data = Some d\<rparr>)) \<and>
           elems (data out2) =
             retained_rows ((columns (config this))\<lparr>altitude := Some (a\<lparr>fieldIdx := k\<rparr>)\<rparr>)
               allData' filteredIndex' \<and>
           heap_next this1 \<le> arr_ref (data out2) \<and> arr_ref (data out2) < heap_next this2"
proof -
  let ?cfg = "(config this)\<lparr>columns := (columns (config this))\<lparr>altitude := Some (a\<lparr>fieldIdx := k\<rparr>)\<rparr>\<rparr>"
  have "map_option fieldIdx (altitude (columns ?cfg)) \<noteq> map_option fieldIdx (altitude (columns (config this)))"
    using assms(2-4) by simp
  then have key: "pointPosResolver (columns ?cfg) \<noteq> pointPosResolver (columns (config this))"
    using pointPosResolver_inj by blast
  from cold_pass_after_key_change [OF assms(1) assms(5) key assms(6)] show ?thesis by simp
qed

theorem altitude_bound_forces_cold_pass_witness:
  "\<exists>out1 this1 out2 this2.
     formatLayerData example_host example_layer example_rows [0, 1, 2] None \<lparr>sameData = False\<rparr> =
       (Inr out1, this1) \<and>
     formatLayerData example_host
       (this1\<lparr>config := example_config\<lparr>columns :=
           example_columns\<lparr>altitude := Some \<lparr>col_name = None, fieldIdx = 2, optional = True\<rparr>\<rparr>\<rparr>\<rparr>)
       example_rows [0, 1, 2] (previous out1) \<lparr>sameData = True\<rparr> = (Inr out2, this2) \<and>
     \<not> same_fn (getPosition out1) (getPosition out2) \<and>
     elems (data out1) = [\<lparr>d_data = Some (example_rows ! 0)\<rparr>, \<lparr>d_data = Some (example_rows ! 2)\<rparr>] \<and>
     elems (data out2) = [\<lparr>d_data = Some (example_rows ! 0)\<rparr>] \<and>
     heap_next this1 \<le> arr_ref (data out2)"
proof -
  from example_first_pass obtain out1 this1 where
    p: "formatLayerData example_host example_layer example_rows [0, 1, 2] None \<lparr>sameData = False\<rparr> =
       (Inr out1, this1)"
    and e: "elems (data out1) = [\<lparr>d_data = Some (example_rows ! 0)\<rparr>, \<lparr>d_data = Some (example_rows ! 2)\<rparr>]"
    by blast
  have 1: "wf_layer example_layer" by (simp add: example_layer_def wf_layer_PointLayer)
  have 2: "altitude (columns (config example_layer)) = Some \<lparr>col_name = None, fieldIdx = -1, optional = True\<rparr>"
    by (simp add: example_defs PointLayer_def)
  have 3: "fieldIdx \<lparr>col_name = None, fieldIdx = -1, optional = True\<rparr> = -1" by simp
  have 4: "in_range example_rows [0, 1, 2]" by (simp add: in_range_def example_rows_def)
  have c: "config example_layer = example_config" "columns example_config = example_columns"
    by (simp_all add: example_layer_def PointLayer_def example_config_def)
  have r: "retained_rows (example_columns\<lparr>altitude := Some \<lparr>col_name = None, fieldIdx = 2, optional = True\<rparr>\<rparr>)
      example_rows [0, 1, 2] = [\<lparr>d_data = Some (example_rows ! 0)\<rparr>]"
    by (simp add: retained_rows_def finite_position_def position_of_def cell_def js_index_def
        example_columns_def example_rows_def)
  from altitude_bound_forces_cold_pass [OF 1 2 3 _ p 4, of 2] p e show ?thesis
    by (simp add: c r) blast
qed

text \<open>
  C6.  Glyph completeness fails on a label with a character outside the Basic Multilingual
  Plane.  One row whose name is the single character U+1F600 gives a character set of two
  elements, the two lone surrogates \<open>D83D\<close> and \<open>DE00\<close>, neither of which is a character
  of the label.  A hundred such rows, whose labels hold the same one character, give the
  one element \<open>D83D DE00\<close> instead, since their concatenation reaches 200 code units.  And
  the set depends on the order of the rows: the rows named \<open>a...a D83D\<close> (200 units) and
  \<open>DE00\<close> give \<open>a\<close> and \<open>D83D DE00\<close> in one order, and \<open>DE00\<close>, \<open>a\<close> and \<open>D83D\<close> in
  the other.  All four passes return.
\<close>

theorem glyph_set_splits_surrogate_pairs:
  "\<not> isl (fst emoji_pass) \<and>
   elems (labelCharacterSet (projr (fst emoji_pass))) = [[0xD83D], [0xDE00]] \<and>
   \<not> isl (fst emoji_pass_hundred) \<and>
   elems (labelCharacterSet (projr (fst emoji_pass_hundred))) = [[0xD83D, 0xDE00]] \<and>
   \<not> isl (fst boundary_pass) \<and> \<not> isl (fst boundary_pass_reversed) \<and>
   elems (labelCharacterSet (projr (fst boundary_pass))) = [[0x61], [0xD83D, 0xDE00]] \<and>
   elems (labelCharacterSet (projr (fst boundary_pass_reversed))) = [[0xDE00], [0x61], [0xD83D]] \<and>
   mset (elems (data (projr (fst boundary_pass_reversed)))) =
     mset (elems (data (projr (fst boundary_pass)))) \<and>
   set (elems (labelCharacterSet (projr (fst boundary_pass_reversed)))) \<noteq>
     set (elems (labelCharacterSet (projr (fst boundary_pass))))"
proof -
  have 1: "\<not> isl (fst emoji_pass)"
    "elems (labelCharacterSet (projr (fst emoji_pass))) = [[0xD83D], [0xDE00]]"
    by code_simp+
  have 2: "\<not> isl (fst emoji_pass_hundred)"
    "elems (labelCharacterSet (projr (fst emoji_pass_hundred))) = [[0xD83D, 0xDE00]]"
    by code_simp+
  have 3: "\<not> isl (fst boundary_pass)" "\<not> isl (fst boundary_pass_reversed)"
    "elems (labelCharacterSet (projr (fst boundary_pass))) = [[0x61], [0xD83D, 0xDE00]]"
    "elems (labelCharacterSet (projr (fst boundary_pass_reversed))) = [[0xDE00], [0x61], [0xD83D]]"
    by code_simp+
  have 4: "elems (data (projr (fst boundary_pass))) = [\<lparr>d_data = Some long_row\<rparr>, \<lparr>d_data = Some low_row\<rparr>]"
    "elems (data (projr (fst boundary_pass_reversed))) = [\<lparr>d_data = Some low_row\<rparr>, \<lparr>d_data = Some long_row\<rparr>]"
    by code_simp+
  have 5: "mset (elems (data (projr (fst boundary_pass_reversed)))) =
     mset (elems (data (projr (fst boundary_pass))))"
    unfolding 4 by simp
  have "[0xDE00] \<in> set (elems (labelCharacterSet (projr (fst boundary_pass_reversed))))"
    unfolding 3 by simp
  moreover have "[0xDE00] \<notin> set (elems (labelCharacterSet (projr (fst boundary_pass))))"
    unfolding 3 by simp
  ultimately have 6: "set (elems (labelCharacterSet (projr (fst boundary_pass_reversed)))) \<noteq>
     set (elems (labelCharacterSet (projr (fst boundary_pass))))"
    by blast
  from 1 2 3 5 6 show ?thesis by blast
qed

text \<open>
  C7.  Fallback constants.  In the descriptor a pass returns, the radius accessor is the
  constant 1 when no size field is bound, the fill colour accessor is the layer's base
  colour \<^verbatim>\<open>config.color\<close> when no colour field is bound, and the line colour accessor is
  \<^verbatim>\<open>visConfig.strokeColor\<close>, or the base colour when that override is not set, when no
  stroke colour field is bound: each gives that value on every row.
\<close>

theorem fallback_constants:
  assumes "formatLayerData host this allData filteredIndex oldLayerData op = (Inr out, this')"
  shows "(sizeField (config this) = None \<longrightarrow>
            (\<forall>d. call_accessor host (getRadius out) d = VNumber 1)) \<and>
         (colorField (config this) = None \<longrightarrow>
            (\<forall>d. call_accessor host (getFillColor out) d = VColor (color (config this)))) \<and>
         (strokeColorField (config this) = None \<longrightarrow>
            (\<forall>d. call_accessor host (getLineColor out) d =
                   VColor (case strokeColor (visConfig (config this)) of
                             Some stroke \<Rightarrow> stroke
                           | None \<Rightarrow> color (config this))))"
proof -
  from assms have
    "getRadius out = radiusAccessor host (config this)"
    "getFillColor out = fillColorAccessor host (config this)"
    "getLineColor out = lineColorAccessor host (config this)"
    by (auto elim: formatLayerData_InrE)
  then show ?thesis
    by (simp add: radiusAccessor_def fillColorAccessor_def lineColorAccessor_def
        rScale_def cScale_def scScale_def call_accessor_def)
qed

theorem fallback_constants_witness:
  "\<exists>out this'.
     formatLayerData example_host example_layer example_rows [0, 1, 2] None \<lparr>sameData = False\<rparr> =
       (Inr out, this') \<and>
     sizeField (config example_layer) = None \<and> colorField (config example_layer) = None \<and>
     strokeColorField (config example_layer) = None \<and>
     call_accessor example_host (getRadius out) \<lparr>d_data = Some (example_rows ! 0)\<rparr> = VNumber 1 \<and>
     call_accessor example_host (getFillColor out) \<lparr>d_data = Some (example_rows ! 2)\<rparr> = VColor [18, 147, 154] \<and>
     call_accessor example_host (getLineColor out) \<lparr>d_data = Some (example_rows ! 2)\<rparr> = VColor [18, 147, 154]"
proof -
  from example_first_pass obtain out this' where
    p: "formatLayerData example_host example_layer example_rows [0, 1, 2] None \<lparr>sameData = False\<rparr> =
       (Inr out, this')" by blast
  have c: "sizeField (config example_layer) = None" "colorField (config example_layer) = None"
    "strokeColorField (config example_layer) = None"
    "color (config example_layer) = [18, 147, 154]"
    "strokeColor (visConfig (config example_layer)) = None"
    by (simp_all add: example_defs PointLayer_def)
  from fallback_constants [OF p] c p show ?thesis by simp
qed

text \<open>
  C8.  The worked example.  On the rows \<^verbatim>\<open>[[1, 10], [NaN, 20]]\<close> with latitude in column
  1, longitude in column 0 and the altitude unbound (its entry missing, or there with
  \<^verbatim>\<open>fieldIdx\<close> -1), the first pass of a new layer over the indices \<^verbatim>\<open>[0, 1]\<close> returns
  exactly row 0, whose position is \<^verbatim>\<open>[1, 10, 0]\<close>; row 1, whose longitude is NaN, is not
  in the output.
\<close>

theorem worked_example:
  "(\<exists>out this'.
     formatLayerData host
       (PointLayer ident
          (cfg\<lparr>columns := \<lparr>lat = la\<lparr>fieldIdx := 1\<rparr>, lng = lo\<lparr>fieldIdx := 0\<rparr>, altitude = None\<rparr>\<rparr>) ref)
       [[JNumber 1, JNumber 10], [JNaN, JNumber 20]] [0, 1] None op = (Inr out, this') \<and>
     elems (data out) = [\<lparr>d_data = Some [JNumber 1, JNumber 10]\<rparr>] \<and>
     map (call_position (getPosition out)) (elems (data out)) =
       [Inr [JNumber 1, JNumber 10, JNumber 0]]) \<and>
   (\<exists>out this'.
     formatLayerData host
       (PointLayer ident
          (cfg\<lparr>columns := \<lparr>lat = la\<lparr>fieldIdx := 1\<rparr>, lng = lo\<lparr>fieldIdx := 0\<rparr>,
                             altitude = Some (al\<lparr>fieldIdx := -1\<rparr>)\<rparr>\<rparr>) ref)
       [[JNumber 1, JNumber 10], [JNaN, JNumber 20]] [0, 1] None op = (Inr out, this') \<and>
     elems (data out) = [\<lparr>d_data = Some [JNumber 1, JNumber 10]\<rparr>] \<and>
     map (call_position (getPosition out)) (elems (data out)) =
       [Inr [JNumber 1, JNumber 10, JNumber 0]])"
  by (cases "label_field (textLabel cfg)") (simp_all add: pass_defs Let_def)

text \<open>
  C9.  \<^verbatim>\<open>renderLayer\<close> on a layer whose columns have no altitude entry: building the
  primary point layer reads \<^verbatim>\<open>this.config.columns.altitude.fieldIdx\<close> and throws, so no
  sub-layer is emitted, whatever the hover state and the label field.
\<close>

theorem renderLayer_missing_altitude:
  "renderLayer host
     (this\<lparr>config := (config this)\<lparr>columns := (columns (config this))\<lparr>altitude := None\<rparr>\<rparr>\<rparr>)
     dat idx layerInteraction objectHovered mapState brushConfig = Inl TypeError"
  by (simp add: renderLayer_def)

text \<open>
  C10.  Two column bindings that differ only in how the unbound altitude is written, one
  with no altitude entry and one with an entry of \<^verbatim>\<open>fieldIdx\<close> -1, give the same position
  on every row, namely the row's longitude cell, its latitude cell and the altitude
  coordinate 0, but their memoization keys end in \<^verbatim>\<open>z\<close> and in \<^verbatim>\<open>-1\<close>.  So when the
  configuration is switched from either to the other between two passes, the next pass,
  even with the previous output and \<^verbatim>\<open>sameData\<close>, gets a different accessor object
  and is a cold one: bounds recomputed, rows rebuilt in a newly allocated array.
\<close>

theorem unbound_altitude_two_keys:
  assumes "wf_layer this"
    and "altitude c1 = None" and "altitude c2 = Some a" and "fieldIdx a = -1"
    and "fieldIdx (lat c1) = fieldIdx (lat c2)" and "fieldIdx (lng c1) = fieldIdx (lng c2)"
    and "(columns (config this) = c1 \<and> columns cfg' = c2) \<or>
         (columns (config this) = c2 \<and> columns cfg' = c1)"
    and "formatLayerData host this allData filteredIndex oldLayerData op = (Inr out1, this1)"
    and "in_range allData' filteredIndex'"
  shows "(\<forall>r. position_of c1 r =
                [cell r (fieldIdx (lng c1)), cell r (fieldIdx (lat c1)), JNumber 0] \<and>
              position_of c2 r =
                [cell r (fieldIdx (lng c1)), cell r (fieldIdx (lat c1)), JNumber 0] \<and>
              position_of c1 r = position_of c2 r) \<and>
         pointPosResolver c1 =
           int_toString (fieldIdx (lat c1)) @ ''-'' @ int_toString (fieldIdx (lng c1)) @ ''-z'' \<and>
         pointPosResolver c2 =
           int_toString (fieldIdx (lat c1)) @ ''-'' @ int_toString (fieldIdx (lng c1)) @ ''--1'' \<and>
         (\<exists>out2 this2.
            formatLayerData host (this1\<lparr>config := cfg'\<rparr>) allData' filteredIndex' (previous out1)
              \<lparr>sameData = True\<rparr> = (Inr out2, this2) \<and>
            \<not> same_fn (getPosition out1) (getPosition out2) \<and>
            positionChanged (previous out1) (getPosition out2) \<and>
            \<not> reuseData (previous out1) \<lparr>sameData = True\<rparr> (getPosition out2) \<and>
            meta_bounds this2 =
              Some (getPointsBounds host allData'
                      (\<lambda>d. call_position (getPosition out2) \<lparr>d_data = Some d\<rparr>)) \<and>
            elems (data out2) = retained_rows (columns cfg') allData' filteredIndex' \<and>
            heap_next this1 \<le> arr_ref (data out2) \<and> arr_ref (data out2) < heap_next this2)"
proof -
  have pos: "\<forall>r. position_of c1 r =
                [cell r (fieldIdx (lng c1)), cell r (fieldIdx (lat c1)), JNumber 0] \<and>
              position_of c2 r =
                [cell r (fieldIdx (lng c1)), cell r (fieldIdx (lat c1)), JNumber 0] \<and>
              position_of c1 r = position_of c2 r"
    using assms(2-6) by (simp add: position_of_def)
  have k1: "pointPosResolver c1 =
      int_toString (fieldIdx (lat c1)) @ ''-'' @ int_toString (fieldIdx (lng c1)) @ ''-z''"
    using assms(2) by (simp add: pointPosResolver_def)
  have k2: "pointPosResolver c2 =
      int_toString (fieldIdx (lat c1)) @ ''-'' @ int_toString (fieldIdx (lng c1)) @ ''--1''"
    using assms(3-6) by (simp add: pointPosResolver_def int_toString_minus_one)
  have "pointPosResolver c1 \<noteq> pointPosResolver c2" unfolding k1 k2 by simp
  with assms(7) have key: "pointPosResolver (columns cfg') \<noteq> pointPosResolver (columns (config this))"
    by auto
  from cold_pass_after_key_change [OF assms(1) assms(8) key assms(9)] pos k1 k2
  show ?thesis by simp
qed

theorem unbound_altitude_two_keys_witness:
  "\<exists>out1 this1 out2 this2.
     formatLayerData example_host example_layer example_rows [0, 1, 2] None \<lparr>sameData = False\<rparr> =
       (Inr out1, this1) \<and>
     formatLayerData example_host
       (this1\<lparr>config := example_config\<lparr>columns := example_columns\<lparr>altitude := None\<rparr>\<rparr>\<rparr>)
       example_rows [0, 1, 2] (previous out1) \<lparr>sameData = True\<rparr> = (Inr out2, this2) \<and>
     pointPosResolver (example_columns\<lparr>altitude := None\<rparr>) = ''1-0-z'' \<and>
     pointPosResolver example_columns = ''1-0--1'' \<and>
     position_of (example_columns\<lparr>altitude := None\<rparr>) (example_rows ! 2) =
       [JNumber 2, JNumber 30, JNumber 0] \<and>
     position_of example_columns (example_rows ! 2) = [JNumber 2, JNumber 30, JNumber 0] \<and>
     \<not> same_fn (getPosition out1) (getPosition out2) \<and>
     elems (data out2) = elems (data out1) \<and>
     heap_next this1 \<le> arr_ref (data out2)"
proof -
  from example_first_pass obtain out1 this1 where
    p: "formatLayerData example_host example_layer example_rows [0, 1, 2] None \<lparr>sameData = False\<rparr> =
       (Inr out1, this1)"
    and e: "elems (data out1) = [\<lparr>d_data = Some (example_rows ! 0)\<rparr>, \<lparr>d_data = Some (example_rows ! 2)\<rparr>]"
    by blast
  let ?c1 = "example_columns\<lparr>altitude := None\<rparr>"
  let ?cfg = "example_config\<lparr>columns := ?c1\<rparr>"
  have 1: "wf_layer example_layer" by (simp add: example_layer_def wf_layer_PointLayer)
  have 2: "altitude ?c1 = None" by simp
  have 3: "altitude example_columns = Some \<lparr>col_name = None, fieldIdx = -1, optional = True\<rparr>"
    by (simp add: example_columns_def)
  have 4: "fieldIdx \<lparr>col_name = None, fieldIdx = -1, optional = True\<rparr> = -1" by simp
  have 5: "fieldIdx (lat ?c1) = fieldIdx (lat example_columns)"
    "fieldIdx (lng ?c1) = fieldIdx (lng example_columns)" by simp_all
  have 6: "(columns (config example_layer) = ?c1 \<and> columns ?cfg = example_columns) \<or>
           (columns (config example_layer) = example_columns \<and> columns ?cfg = ?c1)"
    by (simp add: example_layer_def PointLayer_def example_config_def)
  have 7: "in_range example_rows [0, 1, 2]" by (simp add: in_range_def example_rows_def)
  have r: "retained_rows ?c1 example_rows [0, 1, 2] =
      [\<lparr>d_data = Some (example_rows ! 0)\<rparr>, \<lparr>d_data = Some (example_rows ! 2)\<rparr>]"
    by (simp add: retained_rows_def finite_position_def position_of_def cell_def js_index_def
        example_columns_def example_rows_def)
  have q: "position_of ?c1 (example_rows ! 2) = [JNumber 2, JNumber 30, JNumber 0]"
    "position_of example_columns (example_rows ! 2) = [JNumber 2, JNumber 30, JNumber 0]"
    by (simp_all add: position_of_def cell_def js_index_def example_columns_def example_rows_def)
  from unbound_altitude_two_keys [OF 1 2 3 4 5 6 p 7] p e example_keys(1,2) q show ?thesis
    by (simp add: r) blast
qed

end
